theory Spec2Isabelle
  imports Main "HOL-Library.AList"
begin

section \<open>Values, transactions and the process state\<close>

text \<open>
  JavaScript values as far as \<^verbatim>\<open>withSentry.ts\<close> looks at them: primitives, objects
  known by their identity, and the wrapper object that \<^verbatim>\<open>objectify\<close> builds around a
  primitive (\<^verbatim>\<open>new String('x')\<close> and its like).
\<close>

datatype js_value =
    JUndefined
  | JNull
  | JBool bool
  | JNum int
  | JStr string
  | JObject nat
  | JWrapper js_value
  | JTypeError

text \<open>A child span of a transaction (\<^verbatim>\<open>transaction.startChild({ op })\<close>).\<close>

record span =
  spanOp :: string
  spanStart :: nat
  spanEnd :: "nat option"

text \<open>
  A transaction object. Transactions live in a heap (a list indexed by reference), since
  the response, the scope and the global stash all hold references to the same object.
  \<open>traceparent\<close> and \<open>baggage\<close> keep the request headers the transaction was started from.
  The identifier is kept as the digits that the hub has drawn for it.
\<close>

record transaction =
  spanIdDigits :: "nat list"
  name :: string
  op :: "string option"
  source :: "string option"
  traceparent :: "string option"
  baggage :: "string option"
  startTimestamp :: nat
  endTimestamp :: "nat option"
  httpStatus :: "nat option"
  spans :: "span list"

text \<open>Callbacks that \<^verbatim>\<open>setImmediate\<close> has queued for the next turn of the event loop.\<close>

datatype task =
    TaskTransactionFinish nat
  | TaskSpanFinish nat nat

datatype flush_outcome =
    FlushResolved bool
  | FlushRejected js_value

datatype processor =
    AddRequestDataToEvent
  | AddExceptionMechanism

text \<open>What the program does to the outside, in the order in which it does it.\<close>

text \<open>
  What \<^verbatim>\<open>stash[id]\<close> can yield: the stash is a plain object, so besides the transactions
  stored in it a lookup also finds the members it inherits from \<^verbatim>\<open>Object.prototype\<close>.
\<close>

datatype stash_member =
    OwnTransaction nat
  | InheritedMember string

datatype event =
    EvStartTransaction nat
  | EvSetHttpStatus nat nat
  | EvSetImmediate task
  | EvFinish nat nat
  | EvSpanFinish nat nat
  | EvFlush nat
  | EvFlushSettled flush_outcome
  | EvLog string
  | EvCaptureException js_value
  | EvConsoleWarn
  | EvOrigEnd "js_value list"
  | EvUser string

record scope =
  eventProcessors :: "processor list"
  scopeSpan :: "nat option"

text \<open>
  The process: the transaction heap, \<^verbatim>\<open>global.__sentryTransactions__\<close> (absent until the
  first stash), the queue of immediates, the clock, the current scope of the hub (absent when
  \<^verbatim>\<open>getScope()\<close> returns nothing) and the trace of effects.
\<close>

record world =
  transactions :: "transaction list"
  sentryTransactions :: "(string \<times> stash_member) list option"
  immediates :: "task list"
  clock :: nat
  currentScope :: "scope option"
  events :: "event list"

text \<open>
  What the module reads from its surroundings: \<^verbatim>\<open>hasTracingEnabled()\<close>, \<^verbatim>\<open>isBuild()\<close>,
  the build-time constant \<^verbatim>\<open>__DEBUG_BUILD__\<close>, the two environment variables behind the
  development warning (\<^verbatim>\<open>NODE_ENV === 'development'\<close> and
  \<^verbatim>\<open>SENTRY_IGNORE_API_RESOLUTION_ERROR\<close>), the digits of the identifier given to the n-th
  transaction, and how the n-th call of \<^verbatim>\<open>flush\<close> settles.
\<close>

record env =
  hasTracingEnabled :: bool
  isBuild :: bool
  debugBuild :: bool
  nodeEnvDevelopment :: bool
  ignoreApiResolutionError :: bool
  newSpanId :: "nat \<Rightarrow> nat list"
  flushOutcome :: "nat \<Rightarrow> flush_outcome"

datatype end_method =
    NativeEnd
  | WrappedEnd end_method

record response =
  statusCode :: nat
  statusMessage :: string
  sentryTransaction :: "nat option"
  res_end :: end_method

definition logEvent :: "event \<Rightarrow> world \<Rightarrow> world" where
  "logEvent e w = w\<lparr>events := events w @ [e]\<rparr>"

definition getTransaction :: "world \<Rightarrow> nat \<Rightarrow> transaction option" where
  "getTransaction w t =
     (if t < length (transactions w) then Some (transactions w ! t) else None)"

definition updateTransaction :: "nat \<Rightarrow> (transaction \<Rightarrow> transaction) \<Rightarrow> world \<Rightarrow> world" where
  "updateTransaction t f w =
     (if t < length (transactions w)
      then w\<lparr>transactions := (transactions w)[t := f (transactions w ! t)]\<rparr>
      else w)"

text \<open>
  Modelled from the spec: the identifier of a transaction is unique and opaque, and the hub
  that draws it is not among the sources. The tracing package writes it as a string of
  hexadecimal digits; \<^verbatim>\<open>transaction.spanId\<close> is that string.
\<close>

definition hexDigit :: "nat \<Rightarrow> char" where
  "hexDigit n = ''0123456789abcdef'' ! (n mod 16)"

definition spanId :: "'a transaction_scheme \<Rightarrow> string" where
  "spanId x = map hexDigit (spanIdDigits x)"

section \<open>The transaction methods used by the wrappers\<close>

text \<open>
  Modelled from the spec: \<^verbatim>\<open>Transaction.setHttpStatus\<close> belongs to the tracing package,
  which is not among the sources. The spec lists a status code among a transaction's
  attributes; the call records it.
\<close>

definition setHttpStatus :: "nat \<Rightarrow> nat \<Rightarrow> world \<Rightarrow> world" where
  "setHttpStatus t code w =
     logEvent (EvSetHttpStatus t code) (updateTransaction t (\<lambda>x. x\<lparr>httpStatus := Some code\<rparr>) w)"

text \<open>
  Modelled from the spec: \<^verbatim>\<open>Transaction.finish\<close> belongs to the tracing package. The
  spec: finish marks the finish time; a transaction goes through at most one finish, and a
  second finish call is a no-op, never counted twice downstream.
\<close>

definition finish :: "nat \<Rightarrow> world \<Rightarrow> world" where
  "finish t w =
     (case getTransaction w t of
        None \<Rightarrow> w
      | Some x \<Rightarrow>
          (case endTimestamp x of
             Some _ \<Rightarrow> w
           | None \<Rightarrow>
               logEvent (EvFinish t (clock w))
                 ((updateTransaction t (\<lambda>y. y\<lparr>endTimestamp := Some (clock w)\<rparr>) w)
                    \<lparr>clock := Suc (clock w)\<rparr>)))"

text \<open>
  Modelled from the spec: \<^verbatim>\<open>Span.finish\<close> of a child span, which marks the span's
  finish time.
\<close>

definition finishSpan :: "nat \<Rightarrow> nat \<Rightarrow> world \<Rightarrow> world" where
  "finishSpan t i w =
     (case getTransaction w t of
        None \<Rightarrow> w
      | Some x \<Rightarrow>
          if i < length (spans x) \<and> spanEnd (spans x ! i) = None
          then logEvent (EvSpanFinish t i)
                 ((updateTransaction t
                     (\<lambda>y. y\<lparr>spans := (spans y)[i := (spans y ! i)\<lparr>spanEnd := Some (clock w)\<rparr>]\<rparr>) w)
                    \<lparr>clock := Suc (clock w)\<rparr>)
          else w)"

section \<open>The event loop and the flush\<close>

definition setImmediate :: "task \<Rightarrow> world \<Rightarrow> world" where
  "setImmediate k w = logEvent (EvSetImmediate k) (w\<lparr>immediates := immediates w @ [k]\<rparr>)"

fun run_task :: "task \<Rightarrow> world \<Rightarrow> world" where
  "run_task (TaskTransactionFinish t) w = finish t w"
| "run_task (TaskSpanFinish t i) w = finishSpan t i w"

text \<open>
  One turn of the event loop: the immediates queued so far run in the order in which they
  were queued. An \<^verbatim>\<open>await\<close> on a promise that an immediate resolves continues after it.
\<close>

definition run_immediates :: "world \<Rightarrow> world" where
  "run_immediates w = fold run_task (immediates w) (w\<lparr>immediates := []\<rparr>)"

definition isFlush :: "event \<Rightarrow> bool" where
  "isFlush e = (case e of EvFlush _ \<Rightarrow> True | _ \<Rightarrow> False)"

definition flushAttempts :: "world \<Rightarrow> nat" where
  "flushAttempts w = length (filter isFlush (events w))"

text \<open>
  Modelled from the spec: \<^verbatim>\<open>flush\<close> belongs to the node package. The spec: a flush
  primitive accepting a timeout in milliseconds, returning success or failure. A timeout
  resolves to false; a transport failure rejects.
\<close>

definition flush :: "env \<Rightarrow> nat \<Rightarrow> world \<Rightarrow> (js_value + bool) \<times> world" where
  "flush env timeout w =
     (let out = flushOutcome env (flushAttempts w);
          w' = logEvent (EvFlushSettled out) (logEvent (EvFlush timeout) w)
      in (case out of FlushResolved b \<Rightarrow> (Inr b, w') | FlushRejected e \<Rightarrow> (Inl e, w')))"

definition debugLog :: "env \<Rightarrow> string \<Rightarrow> world \<Rightarrow> world" where
  "debugLog env msg w = (if debugBuild env then logEvent (EvLog msg) w else w)"

section \<open>finishSentryProcessing and wrapEndMethod\<close>

text \<open>
  The part of \<^verbatim>\<open>finishSentryProcessing\<close> that runs before its first \<^verbatim>\<open>await\<close>: the
  status is copied to the transaction and the call of \<^verbatim>\<open>transaction.finish\<close> is queued
  with \<^verbatim>\<open>setImmediate\<close>.
\<close>

definition finishSentryProcessing_queued :: "response \<Rightarrow> world \<Rightarrow> world" where
  "finishSentryProcessing_queued res w =
     (case sentryTransaction res of
        None \<Rightarrow> w
      | Some t \<Rightarrow> setImmediate (TaskTransactionFinish t) (setHttpStatus t (statusCode res) w))"

text \<open>
  \<^verbatim>\<open>await transactionFinished\<close>: when there is a transaction, the function continues
  only after the turn of the event loop in which the queued finish has run.
\<close>

definition transactionFinished :: "response \<Rightarrow> world \<Rightarrow> world" where
  "transactionFinished res w =
     (case sentryTransaction res of
        None \<Rightarrow> w
      | Some t \<Rightarrow> run_immediates (finishSentryProcessing_queued res w))"

text \<open>
  The whole function: the finish of the transaction, if there is one, and then the flush,
  whose rejection the \<^verbatim>\<open>catch\<close> swallows.
\<close>

definition finishSentryProcessing ::
  "env \<Rightarrow> response \<Rightarrow> world \<Rightarrow> (js_value + unit) \<times> world" where
  "finishSentryProcessing env res w =
     (let w1 = transactionFinished res w;
          w2 = debugLog env ''Flushing events...'' w1
      in (case flush env 2000 w2 of
            (Inr _, w3) \<Rightarrow> (Inr (), debugLog env ''Done flushing events'' w3)
          | (Inl e, w3) \<Rightarrow> (Inr (), debugLog env ''Error while flushing events'' w3)))"

definition wrapEndMethod :: "end_method \<Rightarrow> end_method" where
  "wrapEndMethod origEnd = WrappedEnd origEnd"

text \<open>
  Calling \<^verbatim>\<open>res.end(...args)\<close>. The native method closes the response; \<^verbatim>\<open>newEnd\<close> awaits
  \<^verbatim>\<open>finishSentryProcessing(this)\<close> and then calls the method it wraps. Every \<^verbatim>\<open>await\<close> is
  modelled as sequencing: the steps of \<^verbatim>\<open>newEnd\<close> run in their order at the call. A caller
  that does not await \<^verbatim>\<open>res.end()\<close> goes on before these steps are through; the model does
  not interleave the two, and the order of the steps among themselves is the same.
\<close>

fun call_end ::
  "env \<Rightarrow> end_method \<Rightarrow> response \<Rightarrow> js_value list \<Rightarrow> world
     \<Rightarrow> (js_value + unit) \<times> world" where
  "call_end env NativeEnd res args w = (Inr (), logEvent (EvOrigEnd args) w)"
| "call_end env (WrappedEnd origEnd) res args w =
     (case finishSentryProcessing env res w of
        (Inl e, w') \<Rightarrow> (Inl e, w')
      | (Inr _, w') \<Rightarrow> call_end env origEnd res args w')"

section \<open>Strings\<close>

text \<open>
  Modelled from the spec: \<^verbatim>\<open>stripUrlQueryAndFragment\<close> belongs to the utils package. The
  spec: the query string is stripped. The path is what stands before the first \<^verbatim>\<open>?\<close> or
  \<^verbatim>\<open>#\<close>.
\<close>

definition stripUrlQueryAndFragment :: "string \<Rightarrow> string" where
  "stripUrlQueryAndFragment urlPath =
     takeWhile (\<lambda>c. c \<noteq> CHR ''?'' \<and> c \<noteq> CHR ''#'') urlPath"

text \<open>
  \<^verbatim>\<open>String.prototype.replace\<close> with a string pattern: the first occurrence is replaced,
  and in the replacement \<^verbatim>\<open>$$\<close>, \<^verbatim>\<open>$&\<close>, the dollar with a backquote and the dollar with
  a quote stand for a dollar, the match, the text before it and the text after it. There
  are no capture groups, so every other dollar stands for itself.
\<close>

fun splitAtFirst :: "string \<Rightarrow> string \<Rightarrow> (string \<times> string) option" where
  "splitAtFirst pat [] = (if pat = [] then Some ([], []) else None)"
| "splitAtFirst pat (c # cs) =
     (if take (length pat) (c # cs) = pat then Some ([], drop (length pat) (c # cs))
      else (case splitAtFirst pat cs of
              None \<Rightarrow> None
            | Some (preceding, following) \<Rightarrow> Some (c # preceding, following)))"

fun getSubstitution :: "string \<Rightarrow> string \<Rightarrow> string \<Rightarrow> string \<Rightarrow> string" where
  "getSubstitution matched preceding following (c # d # rest) =
     (if c = CHR ''$'' \<and> d = CHR ''$''
      then CHR ''$'' # getSubstitution matched preceding following rest
      else if c = CHR ''$'' \<and> d = CHR ''&''
      then matched @ getSubstitution matched preceding following rest
      else if c = CHR ''$'' \<and> d = CHR 0x60
      then preceding @ getSubstitution matched preceding following rest
      else if c = CHR ''$'' \<and> d = CHR 0x27
      then following @ getSubstitution matched preceding following rest
      else c # getSubstitution matched preceding following (d # rest))"
| "getSubstitution matched preceding following cs = cs"

definition replace :: "string \<Rightarrow> string \<Rightarrow> string \<Rightarrow> string" where
  "replace str pat replacement =
     (case splitAtFirst pat str of
        None \<Rightarrow> str
      | Some (preceding, following) \<Rightarrow>
          preceding @ getSubstitution pat preceding following replacement @ following)"

text \<open>
  \<^verbatim>\<open>toUpperCase\<close> on the letters a to z. Request methods are ASCII tokens; on other
  characters the function leaves the bytes as they are, which is not what JavaScript does,
  and the theorems that use it take the method to be ASCII.
\<close>

definition toUpperChar :: "char \<Rightarrow> char" where
  "toUpperChar c =
     (if 97 \<le> (of_char c :: nat) \<and> (of_char c :: nat) \<le> 122
      then char_of ((of_char c :: nat) - 32) else c)"

definition toUpperCase :: "string \<Rightarrow> string" where
  "toUpperCase s = map toUpperChar s"

definition endsWith :: "string \<Rightarrow> string \<Rightarrow> bool" where
  "endsWith s suffix =
     (length suffix \<le> length s \<and> drop (length s - length suffix) s = suffix)"

fun join :: "string \<Rightarrow> string list \<Rightarrow> string" where
  "join sep [] = []"
| "join sep [x] = x"
| "join sep (x # y # ys) = x @ sep @ join sep (y # ys)"

section \<open>The request and its transaction name\<close>

text \<open>A header or a query parameter is a string or an array of strings.\<close>

datatype multi_value =
    Single string
  | Multiple "string list"

text \<open>
  The request. \<open>query\<close> lists the entries of \<^verbatim>\<open>req.query\<close> in the order in which
  \<^verbatim>\<open>Object.entries\<close> yields them.
\<close>

record request =
  url :: "string option"
  req_method :: "string option"
  query :: "(string \<times> multi_value) list option"
  headers :: "(string \<times> multi_value) list option"

text \<open>The template literal \<^verbatim>\<open>`${value}`\<close>: an array is joined with commas.\<close>

fun templateString :: "multi_value \<Rightarrow> string" where
  "templateString (Single s) = s"
| "templateString (Multiple xs) = join '','' xs"

text \<open>\<^verbatim>\<open>req.headers && isString(req.headers[h]) && req.headers[h]\<close>\<close>

definition stringHeader :: "request \<Rightarrow> string \<Rightarrow> string option" where
  "stringHeader req h =
     (case headers req of
        None \<Rightarrow> None
      | Some hs \<Rightarrow> (case map_of hs h of Some (Single s) \<Rightarrow> Some s | _ \<Rightarrow> None))"

text \<open>Lines 69 to 84 of \<^verbatim>\<open>withSentry\<close>: the name of the transaction of a request.\<close>

definition transactionName :: "request \<Rightarrow> string" where
  "transactionName req =
     (let url = (case url req of None \<Rightarrow> ''undefined'' | Some u \<Rightarrow> u);
          reqPath0 = stripUrlQueryAndFragment url;
          reqPath = (case query req of
                       None \<Rightarrow> reqPath0
                     | Some entries \<Rightarrow>
                         fold (\<lambda>(key, value) p. replace p (templateString value) (''['' @ key @ '']''))
                           entries reqPath0);
          reqMethod = toUpperCase
                        (case req_method req of
                           None \<Rightarrow> ''GET''
                         | Some m \<Rightarrow> if m = [] then ''GET'' else m) @ '' ''
      in reqMethod @ reqPath)"

section \<open>The hub\<close>

record transaction_context =
  ctxName :: string
  ctxOp :: "string option"
  ctxSource :: "string option"
  ctxTraceparent :: "string option"
  ctxBaggage :: "string option"

text \<open>
  Modelled from the spec: \<^verbatim>\<open>startTransaction\<close> belongs to the hub. The spec: a new
  transaction has a unique identifier, the given name and operation, a start time, and no
  finish time until it is finished.
\<close>

definition startTransaction :: "env \<Rightarrow> transaction_context \<Rightarrow> world \<Rightarrow> nat \<times> world" where
  "startTransaction env ctx w =
     (let t = length (transactions w);
          x = \<lparr>spanIdDigits = newSpanId env t, name = ctxName ctx, op = ctxOp ctx,
               source = ctxSource ctx, traceparent = ctxTraceparent ctx,
               baggage = ctxBaggage ctx, startTimestamp = clock w, endTimestamp = None,
               httpStatus = None, spans = []\<rparr>
      in (t, logEvent (EvStartTransaction t)
               (w\<lparr>transactions := transactions w @ [x], clock := Suc (clock w)\<rparr>)))"

text \<open>
  Modelled from the spec: \<^verbatim>\<open>startChild\<close> starts a timed child span, which the caller
  finishes.
\<close>

definition startChild :: "nat \<Rightarrow> string \<Rightarrow> world \<Rightarrow> nat \<times> world" where
  "startChild t spOp w =
     (case getTransaction w t of
        None \<Rightarrow> (0, w)
      | Some x \<Rightarrow>
          (length (spans x),
           (updateTransaction t
              (\<lambda>y. y\<lparr>spans := spans y @ [\<lparr>spanOp = spOp, spanStart = clock w, spanEnd = None\<rparr>]\<rparr>) w)
             \<lparr>clock := Suc (clock w)\<rparr>))"

text \<open>Modelled from the spec: \<^verbatim>\<open>setName\<close> renames the transaction; the latest name wins.\<close>

definition setName :: "nat \<Rightarrow> string \<Rightarrow> string \<Rightarrow> world \<Rightarrow> world" where
  "setName t n src w = updateTransaction t (\<lambda>y. y\<lparr>name := n, source := Some src\<rparr>) w"

definition spanIdOf :: "world \<Rightarrow> nat \<Rightarrow> string" where
  "spanIdOf w t = (case getTransaction w t of None \<Rightarrow> [] | Some x \<Rightarrow> spanId x)"

definition addEventProcessor :: "processor \<Rightarrow> world \<Rightarrow> world" where
  "addEventProcessor p w =
     w\<lparr>currentScope :=
          map_option (\<lambda>sc. sc\<lparr>eventProcessors := eventProcessors sc @ [p]\<rparr>) (currentScope w)\<rparr>"

definition setSpan :: "nat \<Rightarrow> world \<Rightarrow> world" where
  "setSpan t w = w\<lparr>currentScope := map_option (\<lambda>sc. sc\<lparr>scopeSpan := Some t\<rparr>) (currentScope w)\<rparr>"

text \<open>
  Modelled from the spec: \<^verbatim>\<open>captureException\<close> reports the error to the telemetry
  backend.
\<close>

definition captureException :: "js_value \<Rightarrow> world \<Rightarrow> world" where
  "captureException e w = logEvent (EvCaptureException e) w"

text \<open>
  Modelled from the spec: \<^verbatim>\<open>objectify\<close> belongs to the utils package. The spec: the
  thrown value is normalized to an object-wrapped form; the comment at its call: a
  primitive is wrapped in the equivalent wrapper class (string to String and so on).
\<close>

fun objectify :: "js_value \<Rightarrow> js_value" where
  "objectify (JObject n) = JObject n"
| "objectify (JWrapper v) = JWrapper v"
| "objectify JTypeError = JTypeError"
| "objectify v = JWrapper v"

section \<open>withSentry\<close>

text \<open>
  A request handler is the user's code: it may change the response and the process, call
  \<^verbatim>\<open>res.end\<close>, and return or throw. The domain that \<^verbatim>\<open>withSentry\<close> binds the handler to
  keeps the scopes of concurrent requests apart; the model follows one request, whose scope
  is \<open>currentScope\<close>. The \<^verbatim>\<open>console.log\<close> and \<^verbatim>\<open>debugger\<close> lines of the page wrappers
  are diagnostics and are left out.
\<close>

type_synonym handler =
  "request \<Rightarrow> response \<Rightarrow> world \<Rightarrow> (js_value + unit) \<times> response \<times> world"

text \<open>
  Lines 53 to 98: inside the domain, the scope gets the request data processor and, when
  tracing is enabled, a transaction is started, set on the scope and linked on the response.
\<close>

definition startRequest :: "env \<Rightarrow> request \<Rightarrow> response \<Rightarrow> world \<Rightarrow> response \<times> world" where
  "startRequest env req res w =
     (case currentScope w of
        None \<Rightarrow> (res, w)
      | Some _ \<Rightarrow>
          (let w1 = addEventProcessor AddRequestDataToEvent w
           in if hasTracingEnabled env
              then (let traceparentData = stringHeader req ''sentry-trace'';
                        w2 = (case traceparentData of
                                None \<Rightarrow> w1
                              | Some _ \<Rightarrow> debugLog env ''[Tracing] Continuing trace'' w1);
                        rawBaggageString = stringHeader req ''baggage'';
                        (t, w3) = startTransaction env
                                    \<lparr>ctxName = transactionName req, ctxOp = Some ''http.server'',
                                     ctxSource = Some ''route'', ctxTraceparent = traceparentData,
                                     ctxBaggage = rawBaggageString\<rparr> w2
                    in (res\<lparr>sentryTransaction := Some t\<rparr>, setSpan t w3))
              else (res, w1)))"

text \<open>Lines 113 to 151: the \<^verbatim>\<open>catch\<close> block, given the scope found at the start.\<close>

definition handleError ::
  "env \<Rightarrow> bool \<Rightarrow> js_value \<Rightarrow> response \<Rightarrow> world \<Rightarrow> (js_value + unit) \<times> response \<times> world" where
  "handleError env hasScope e res w =
     (let objectifiedErr = objectify e;
          w1 = (if hasScope
                then captureException objectifiedErr (addEventProcessor AddExceptionMechanism w)
                else w);
          res1 = res\<lparr>statusCode := 500, statusMessage := ''Internal Server Error''\<rparr>
      in (case finishSentryProcessing env res1 w1 of
            (Inl e', w2) \<Rightarrow> (Inl e', res1, w2)
          | (Inr _, w2) \<Rightarrow> (Inl objectifiedErr, res1, w2)))"

text \<open>
  The state in which the wrapped handler is called: \<^verbatim>\<open>res.end\<close> has been replaced by
  its wrapped version, and the request has been started.
\<close>

definition handlerInput :: "env \<Rightarrow> request \<Rightarrow> response \<Rightarrow> world \<Rightarrow> response \<times> world" where
  "handlerInput env req res w =
     startRequest env req (res\<lparr>res_end := wrapEndMethod (res_end res)\<rparr>) w"

definition withSentry ::
  "env \<Rightarrow> handler \<Rightarrow> request \<Rightarrow> response \<Rightarrow> world \<Rightarrow> (js_value + unit) \<times> response \<times> world" where
  "withSentry env origHandler req res w =
     (case handlerInput env req res w of
        (res1, w1) \<Rightarrow>
          (case origHandler req res1 w1 of
             (Inr handlerResult, res2, w2) \<Rightarrow>
               (Inr handlerResult, res2,
                if nodeEnvDevelopment env \<and> \<not> ignoreApiResolutionError env
                then logEvent EvConsoleWarn w2 else w2)
           | (Inl e, res2, w2) \<Rightarrow> handleError env (currentScope w \<noteq> None) e res2 w2))"

section \<open>The transaction stash\<close>

text \<open>
  The names that every plain object inherits from \<^verbatim>\<open>Object.prototype\<close>. Each of them
  holds a function or an object, which is truthy and has none of the methods of a
  transaction.
\<close>

definition objectPrototypeKeys :: "string list" where
  "objectPrototypeKeys =
     [''constructor'', ''__proto__'', ''hasOwnProperty'', ''isPrototypeOf'',
      ''propertyIsEnumerable'', ''toLocaleString'', ''toString'', ''valueOf'',
      ''__defineGetter__'', ''__defineSetter__'', ''__lookupGetter__'', ''__lookupSetter__'']"

text \<open>
  \<^verbatim>\<open>stash[key]\<close>: an own entry if there is one, else the inherited member of that name, else
  nothing.
\<close>

definition stashLookup :: "(string \<times> stash_member) list \<Rightarrow> string \<Rightarrow> stash_member option" where
  "stashLookup stash key =
     (case map_of stash key of
        Some m \<Rightarrow> Some m
      | None \<Rightarrow> if key \<in> set objectPrototypeKeys then Some (InheritedMember key) else None)"

text \<open>
  The parameter of \<^verbatim>\<open>getTransactionById\<close> defaults to the empty string. Its declared
  result is a transaction or nothing; what it yields is whatever \<^verbatim>\<open>stash[transactionId]\<close>
  finds.
\<close>

definition getTransactionById :: "string option \<Rightarrow> world \<Rightarrow> stash_member option" where
  "getTransactionById transactionId w =
     (case sentryTransactions w of
        None \<Rightarrow> None
      | Some stash \<Rightarrow> stashLookup stash (case transactionId of None \<Rightarrow> [] | Some i \<Rightarrow> i))"

definition deleteTransaction :: "string \<Rightarrow> world \<Rightarrow> world" where
  "deleteTransaction transactionId w =
     (case sentryTransactions w of
        None \<Rightarrow> w
      | Some stash \<Rightarrow> w\<lparr>sentryTransactions := Some (AList.delete transactionId stash)\<rparr>)"

text \<open>
  \<^verbatim>\<open>stash[transaction.spanId] = transaction\<close>. The identifier of a transaction is a string
  of hexadecimal digits, so the assignment makes or replaces an own entry.
\<close>

definition stashTransaction :: "nat \<Rightarrow> world \<Rightarrow> world" where
  "stashTransaction t w =
     w\<lparr>sentryTransactions :=
          Some (AList.update (spanIdOf w t) (OwnTransaction t)
                  (case sentryTransactions w of None \<Rightarrow> [] | Some stash \<Rightarrow> stash))\<rparr>"

text \<open>
  The same assignment for whatever a lookup has found: an inherited member has no
  \<^verbatim>\<open>spanId\<close>, so it is stored under the name \<^verbatim>\<open>undefined\<close>.
\<close>

fun stashMember :: "stash_member \<Rightarrow> world \<Rightarrow> world" where
  "stashMember (OwnTransaction t) w = stashTransaction t w"
| "stashMember (InheritedMember k) w =
     w\<lparr>sentryTransactions :=
          Some (AList.update ''undefined'' (InheritedMember k)
                  (case sentryTransactions w of None \<Rightarrow> [] | Some stash \<Rightarrow> stash))\<rparr>"

section \<open>withSentry_app\<close>

definition reservedKey :: string where
  "reservedKey = ''__sentry_transaction_id__''"

record underscoreAppContextData =
  pageProps :: "(string \<times> js_value) list"
  route :: string

text \<open>
  \<^verbatim>\<open>contextData.pageProps.__sentry_transaction_id__\<close>, which the type declares as a string
  or absent.
\<close>

definition sentryTransactionId :: "(string \<times> js_value) list \<Rightarrow> string option" where
  "sentryTransactionId props =
     (case map_of props reservedKey of Some (JStr s) \<Rightarrow> Some s | _ \<Rightarrow> None)"

type_synonym 'jsx underscoreAppComponent =
  "underscoreAppContextData \<Rightarrow> world \<Rightarrow> (js_value + 'jsx) \<times> world"

text \<open>
  Lines 257 to 265: what the stash yields for the identifier in the props, or else a new
  transaction, which is stashed.
\<close>

definition activeTransaction ::
  "env \<Rightarrow> underscoreAppContextData \<Rightarrow> world \<Rightarrow> stash_member \<times> world" where
  "activeTransaction env contextData w =
     (case getTransactionById (sentryTransactionId (pageProps contextData)) w of
        Some m \<Rightarrow> (m, w)
      | None \<Rightarrow>
          (case startTransaction env
                  \<lparr>ctxName = route contextData, ctxOp = None, ctxSource = Some ''route'',
                   ctxTraceparent = None, ctxBaggage = None\<rparr> w of
             (t, w1) \<Rightarrow> (OwnTransaction t, stashTransaction t w1)))"

text \<open>
  Lines 267 to 275: the transaction is renamed to the route and given the wrapper's child
  span; the result is the transaction, the span and the state in which the component is
  called. On an inherited member the call of \<^verbatim>\<open>setName\<close> raises a TypeError.
\<close>

definition appWrapperSpan ::
  "env \<Rightarrow> underscoreAppContextData \<Rightarrow> world \<Rightarrow> (js_value + nat \<times> nat) \<times> world" where
  "appWrapperSpan env contextData w =
     (case activeTransaction env contextData w of
        (m, w1) \<Rightarrow>
          (let w2 = debugLog env ''Found an active transaction. Changing its name'' w1
           in (case m of
                 InheritedMember _ \<Rightarrow> (Inl JTypeError, w2)
               | OwnTransaction t \<Rightarrow>
                   (case startChild t ''_app wrapper'' (setName t (route contextData) ''route'' w2) of
                      (sp, w3) \<Rightarrow> (Inr (t, sp), w3)))))"

definition withSentry_app ::
  "env \<Rightarrow> 'jsx underscoreAppComponent \<Rightarrow> underscoreAppContextData \<Rightarrow> world
     \<Rightarrow> (js_value + 'jsx) \<times> world" where
  "withSentry_app env origUnderscoreAppComponent contextData w =
     (if hasTracingEnabled env \<and> \<not> isBuild env
      then (case appWrapperSpan env contextData w of
              (Inl e, w1) \<Rightarrow> (Inl e, w1)
            | (Inr (t, sp), w1) \<Rightarrow>
                (case origUnderscoreAppComponent contextData w1 of
                   (Inl e, w2) \<Rightarrow> (Inl e, w2)
                 | (Inr jsx, w2) \<Rightarrow>
                     (let w3 = finish t (finishSpan t sp w2)
                      in (Inr jsx, deleteTransaction (spanIdOf w3 t) w3))))
      else origUnderscoreAppComponent contextData w)"

section \<open>The data-loading wrappers\<close>

definition startOrGetPageRouteTransaction ::
  "env \<Rightarrow> string \<Rightarrow> string option \<Rightarrow> world \<Rightarrow> stash_member \<times> world" where
  "startOrGetPageRouteTransaction env rt transactionId w =
     (case (case getTransactionById transactionId w of
              Some m \<Rightarrow> (m, w)
            | None \<Rightarrow>
                (case startTransaction env
                        \<lparr>ctxName = rt, ctxOp = Some ''http.server'', ctxSource = Some ''route'',
                         ctxTraceparent = None, ctxBaggage = None\<rparr> w of
                   (t, w1) \<Rightarrow> (OwnTransaction t, w1))) of
        (m, w1) \<Rightarrow> (m, stashMember m w1))"

record getServerSidePropsContext =
  resolvedUrl :: string

text \<open>
  What \<^verbatim>\<open>getServerSideProps\<close> resolves to: props, a redirect, or not found. Only the
  first has a \<^verbatim>\<open>props\<close> field.
\<close>

datatype getServerSidePropsResult =
    ResultProps "(string \<times> js_value) list"
  | ResultRedirect string
  | ResultNotFound

type_synonym getServerSidePropsFunction =
  "getServerSidePropsContext \<Rightarrow> world \<Rightarrow> (js_value + getServerSidePropsResult) \<times> world"

text \<open>
  \<^verbatim>\<open>wrappedGSSP\<close> calls \<^verbatim>\<open>startOrGetPageRouteTransaction(route)\<close> without an identifier.
  On an inherited member the call of \<^verbatim>\<open>startChild\<close> would raise a TypeError.
\<close>

definition wrappedGSSP ::
  "env \<Rightarrow> getServerSidePropsFunction \<Rightarrow> string \<Rightarrow> getServerSidePropsFunction" where
  "wrappedGSSP env gSSP rt context w =
     (if hasTracingEnabled env \<and> \<not> isBuild env \<and> \<not> endsWith (resolvedUrl context) ''.map''
      then (case startOrGetPageRouteTransaction env rt None w of
              (InheritedMember _, w1) \<Rightarrow> (Inl JTypeError, w1)
            | (OwnTransaction t, w1) \<Rightarrow>
                (case startChild t ''getServerSideProps'' w1 of
                   (sp, w2) \<Rightarrow>
                     (case gSSP context w2 of
                        (Inl e, w3) \<Rightarrow> (Inl e, w3)
                      | (Inr finalProps, w3) \<Rightarrow>
                          (let w4 = finishSpan t sp w3
                           in (case finalProps of
                                 ResultProps props \<Rightarrow>
                                   (Inr (ResultProps
                                           (AList.update reservedKey (JStr (spanIdOf w4 t)) props)),
                                    w4)
                               | _ \<Rightarrow> (Inl JTypeError, w4))))))
      else gSSP context w)"

definition withSentryGSSP ::
  "env \<Rightarrow> getServerSidePropsFunction option \<Rightarrow> string \<Rightarrow> getServerSidePropsFunction option" where
  "withSentryGSSP env gSSP rt =
     (case gSSP of None \<Rightarrow> None | Some g \<Rightarrow> Some (wrappedGSSP env g rt))"

record getStaticPropsResult =
  props :: "(string \<times> js_value) list"

type_synonym getStaticPropsContextData = "(string \<times> js_value) list"

type_synonym getStaticPropsFunction =
  "getStaticPropsContextData \<Rightarrow> world \<Rightarrow> (js_value + getStaticPropsResult) \<times> world"

definition withSentryGSP :: "env \<Rightarrow> getStaticPropsFunction \<Rightarrow> getStaticPropsFunction" where
  "withSentryGSP env gSP context w =
     (if hasTracingEnabled env \<and> \<not> isBuild env
      then (case startTransaction env
                    \<lparr>ctxName = ''unknown transaction'', ctxOp = Some ''http.server'',
                     ctxSource = None, ctxTraceparent = None, ctxBaggage = None\<rparr> w of
              (t, w1) \<Rightarrow>
                (case startChild t ''getStaticProps'' (stashTransaction t w1) of
                   (sp, w2) \<Rightarrow>
                     (case gSP context w2 of
                        (Inl e, w3) \<Rightarrow> (Inl e, w3)
                      | (Inr finalProps, w3) \<Rightarrow>
                          (Inr (finalProps\<lparr>props :=
                                  AList.update reservedKey (JStr (spanIdOf w3 t)) (props finalProps)\<rparr>),
                           finishSpan t sp w3))))
      else gSP context w)"

section \<open>Properties of the state\<close>

definition unfinished :: "nat \<Rightarrow> world \<Rightarrow> bool" where
  "unfinished t w =
     (case getTransaction w t of None \<Rightarrow> False | Some x \<Rightarrow> endTimestamp x = None)"

text \<open>The transaction has a finish time, and the trace shows the finish that set it.\<close>

definition finishRecorded :: "nat \<Rightarrow> world \<Rightarrow> bool" where
  "finishRecorded t w =
     (case getTransaction w t of
        None \<Rightarrow> False
      | Some x \<Rightarrow>
          (case endTimestamp x of
             None \<Rightarrow> False
           | Some ts \<Rightarrow> EvFinish t ts \<in> set (events w)))"

definition isFinishOf :: "nat \<Rightarrow> event \<Rightarrow> bool" where
  "isFinishOf t e = (case e of EvFinish u _ \<Rightarrow> u = t | _ \<Rightarrow> False)"

definition finishEvents :: "nat \<Rightarrow> world \<Rightarrow> event list" where
  "finishEvents t w = filter (isFinishOf t) (events w)"

definition spanOpen :: "nat \<Rightarrow> nat \<Rightarrow> world \<Rightarrow> bool" where
  "spanOpen t i w =
     (case getTransaction w t of
        None \<Rightarrow> False
      | Some x \<Rightarrow> i < length (spans x) \<and> spanEnd (spans x ! i) = None)"

text \<open>
  Every entry of the stash is a transaction of the heap that is not finished, under that
  transaction's identifier.
\<close>

definition registry_ok :: "world \<Rightarrow> bool" where
  "registry_ok w =
     (case sentryTransactions w of
        None \<Rightarrow> True
      | Some stash \<Rightarrow>
          list_all (\<lambda>(k, m). case m of
                               InheritedMember _ \<Rightarrow> False
                             | OwnTransaction t \<Rightarrow>
                                 (case getTransaction w t of
                                    None \<Rightarrow> False
                                  | Some x \<Rightarrow> spanId x = k \<and> endTimestamp x = None)) stash)"

definition isObject :: "js_value \<Rightarrow> bool" where
  "isObject v = (case v of JObject _ \<Rightarrow> True | JWrapper _ \<Rightarrow> True | JTypeError \<Rightarrow> True | _ \<Rightarrow> False)"

definition endTimestampOf :: "world \<Rightarrow> nat \<Rightarrow> nat option" where
  "endTimestampOf w t = (case getTransaction w t of None \<Rightarrow> None | Some x \<Rightarrow> endTimestamp x)"

definition httpStatusOf :: "world \<Rightarrow> nat \<Rightarrow> nat option" where
  "httpStatusOf w t = (case getTransaction w t of None \<Rightarrow> None | Some x \<Rightarrow> httpStatus x)"

definition nameOf :: "world \<Rightarrow> nat \<Rightarrow> string option" where
  "nameOf w t = (case getTransaction w t of None \<Rightarrow> None | Some x \<Rightarrow> Some (name x))"

text \<open>The stash holds the transaction under its own identifier.\<close>

definition registered :: "nat \<Rightarrow> world \<Rightarrow> bool" where
  "registered t w =
     (case getTransaction w t of
        None \<Rightarrow> False
      | Some x \<Rightarrow> getTransactionById (Some (spanId x)) w = Some (OwnTransaction t))"

definition identityOf :: "world \<Rightarrow> nat \<Rightarrow> (string \<times> nat) option" where
  "identityOf w t =
     (case getTransaction w t of None \<Rightarrow> None | Some x \<Rightarrow> Some (spanId x, startTimestamp x))"

text \<open>
  Where a pattern occurs in a string, whether it occurs at all, and where it occurs first;
  and whether none of the values of some query entries occurs.
\<close>

definition occursAt :: "string \<Rightarrow> string \<Rightarrow> nat \<Rightarrow> bool" where
  "occursAt pat s n = (take (length pat) (drop n s) = pat)"

definition occurs :: "string \<Rightarrow> string \<Rightarrow> bool" where
  "occurs pat s = list_ex (occursAt pat s) [0..<Suc (length s)]"

definition firstOccurrence :: "string \<Rightarrow> string \<Rightarrow> nat \<Rightarrow> bool" where
  "firstOccurrence pat s n = (occursAt pat s n \<and> \<not> list_ex (occursAt pat s) [0..<n])"

definition noneOccurs :: "string \<Rightarrow> (string \<times> multi_value) list \<Rightarrow> bool" where
  "noneOccurs s entries = list_all (\<lambda>(k, v). \<not> occurs (templateString v) s) entries"

definition isAscii :: "string \<Rightarrow> bool" where
  "isAscii s = list_all (\<lambda>c. (of_char c :: nat) < 128) s"

text \<open>What one flush adds to the trace: the attempt, how it settled, and the debug logs.\<close>

definition flushTrace :: "env \<Rightarrow> world \<Rightarrow> event list" where
  "flushTrace env w =
     (if debugBuild env then [EvLog ''Flushing events...''] else [])
     @ [EvFlush 2000, EvFlushSettled (flushOutcome env (flushAttempts w))]
     @ (if debugBuild env
        then [EvLog (case flushOutcome env (flushAttempts w) of
                       FlushResolved _ \<Rightarrow> ''Done flushing events''
                     | FlushRejected _ \<Rightarrow> ''Error while flushing events'')]
        else [])"

text \<open>
  The trace holds \<open>n\<close> finishes of the transaction while it is open, and one more once it
  is finished.
\<close>

definition finishCount :: "nat \<Rightarrow> nat \<Rightarrow> world \<Rightarrow> bool" where
  "finishCount n t w =
     (case getTransaction w t of
        None \<Rightarrow> False
      | Some x \<Rightarrow> length (finishEvents t w) = (if endTimestamp x = None then n else Suc n))"

section \<open>Example inputs\<close>

definition exampleEnv :: env where
  "exampleEnv =
     \<lparr>hasTracingEnabled = True, isBuild = False, debugBuild = False,
      nodeEnvDevelopment = False, ignoreApiResolutionError = False,
      newSpanId = (\<lambda>n. replicate (Suc n) 10),
      flushOutcome = (\<lambda>n. FlushResolved True)\<rparr>"

definition failingFlushEnv :: env where
  "failingFlushEnv = exampleEnv\<lparr>flushOutcome := (\<lambda>n. FlushRejected (JObject 7))\<rparr>"

definition buildEnv :: env where
  "buildEnv = exampleEnv\<lparr>isBuild := True\<rparr>"

definition emptyWorld :: world where
  "emptyWorld =
     \<lparr>transactions = [], sentryTransactions = None, immediates = [], clock = 0,
      currentScope = Some \<lparr>eventProcessors = [], scopeSpan = None\<rparr>, events = []\<rparr>"

definition plainResponse :: response where
  "plainResponse =
     \<lparr>statusCode = 200, statusMessage = ''OK'', sentryTransaction = None, res_end = NativeEnd\<rparr>"

definition usersRequest :: request where
  "usersRequest =
     \<lparr>url = Some ''/users/42?x=1'', req_method = Some ''GET'',
      query = Some [(''x'', Single ''1''), (''id'', Single ''42'')], headers = Some []\<rparr>"

text \<open>A handler that throws the string \<^verbatim>\<open>'boom'\<close>, and one that throws an object.\<close>

definition throwingHandler :: handler where
  "throwingHandler req res w = (Inl (JStr ''boom''), res, w)"

definition objectThrowingHandler :: handler where
  "objectThrowingHandler req res w = (Inl (JObject 3), res, w)"

text \<open>A handler that sets the status and calls \<^verbatim>\<open>res.end()\<close>.\<close>

definition endingHandler :: "env \<Rightarrow> handler" where
  "endingHandler env req res w =
     (case call_end env (res_end res) (res\<lparr>statusCode := 201\<rparr>) [] w of
        (r, w') \<Rightarrow> (r, res\<lparr>statusCode := 201\<rparr>, w'))"

definition exampleGSSP :: getServerSidePropsFunction where
  "exampleGSSP context w = (Inr (ResultProps [(''a'', JNum 1)]), w)"

definition exampleGSP :: getStaticPropsFunction where
  "exampleGSP context w = (Inr \<lparr>props = [(''a'', JNum 1)]\<rparr>, w)"

definition exampleApp :: "string underscoreAppComponent" where
  "exampleApp contextData w = (Inr ''page'', w)"

definition throwingApp :: "string underscoreAppComponent" where
  "throwingApp contextData w = (Inl (JObject 5), w)"

text \<open>
  A process with one open transaction that has an open child span, whose finish is queued.
\<close>

definition tracedWorld :: world where
  "tracedWorld =
     \<lparr>transactions =
        [\<lparr>spanIdDigits = [10], name = ''GET /users/[id]'', op = Some ''http.server'',
          source = Some ''route'', traceparent = None, baggage = None, startTimestamp = 0,
          endTimestamp = None, httpStatus = None,
          spans = [\<lparr>spanOp = ''db'', spanStart = 1, spanEnd = None\<rparr>]\<rparr>],
      sentryTransactions = None, immediates = [TaskSpanFinish 0 0], clock = 2,
      currentScope = Some \<lparr>eventProcessors = [AddRequestDataToEvent], scopeSpan = Some 0\<rparr>,
      events = [EvStartTransaction 0]\<rparr>"

definition tracedResponse :: response where
  "tracedResponse = plainResponse\<lparr>sentryTransaction := Some 0\<rparr>"

definition postsContext :: getServerSidePropsContext where
  "postsContext = \<lparr>resolvedUrl = ''/posts/7''\<rparr>"

definition mapContext :: getServerSidePropsContext where
  "mapContext = \<lparr>resolvedUrl = ''/_next/static/css/app.css.map''\<rparr>"

definition afterGSSP :: "(js_value + getServerSidePropsResult) \<times> world" where
  "afterGSSP = wrappedGSSP exampleEnv exampleGSSP ''/posts/[id]'' postsContext emptyWorld"

definition appContext :: underscoreAppContextData where
  "appContext =
     \<lparr>pageProps = [(''a'', JNum 1), (''__sentry_transaction_id__'', JStr ''a'')],
      route = ''/posts/[id]''\<rparr>"

text \<open>The wrapped \<^verbatim>\<open>getStaticProps\<close>, run once.\<close>

definition afterGSP1 :: "(js_value + getStaticPropsResult) \<times> world" where
  "afterGSP1 = withSentryGSP exampleEnv exampleGSP [] emptyWorld"

text \<open>The request for \<^verbatim>\<open>/users/42?x=1\<close> with the method in lower case.\<close>

definition lowerCaseRequest :: request where
  "lowerCaseRequest = usersRequest\<lparr>req_method := Some ''get''\<rparr>"

text \<open>Page props whose identifier is the name of a member of \<^verbatim>\<open>Object.prototype\<close>.\<close>

definition constructorContext :: underscoreAppContextData where
  "constructorContext =
     \<lparr>pageProps = [(''__sentry_transaction_id__'', JStr ''constructor'')],
      route = ''/posts/[id]''\<rparr>"

text \<open>The request whose handler throws, as \<^verbatim>\<open>withSentry\<close> leaves it.\<close>

definition erroredRequest :: "(js_value + unit) \<times> response \<times> world" where
  "erroredRequest = withSentry exampleEnv throwingHandler usersRequest plainResponse emptyWorld"

section \<open>Lemmas on the heap and the event loop\<close>

lemma length_updateTransaction [simp]:
  "length (transactions (updateTransaction t f w)) = length (transactions w)"
  by (simp add: updateTransaction_def)

lemma length_finish [simp]: "length (transactions (finish t w)) = length (transactions w)"
  by (simp add: finish_def logEvent_def getTransaction_def split: option.splits)

lemma length_finishSpan [simp]:
  "length (transactions (finishSpan t i w)) = length (transactions w)"
  by (simp add: finishSpan_def logEvent_def getTransaction_def split: option.splits)

lemma length_run_task [simp]: "length (transactions (run_task k w)) = length (transactions w)"
  by (cases k) simp_all

lemma length_fold_run_task [simp]:
  "length (transactions (fold run_task ks w)) = length (transactions w)"
  by (induction ks arbitrary: w) simp_all

lemma finish_records:
  "unfinished t w \<or> finishRecorded t w \<Longrightarrow> finishRecorded t (finish t w)"
  by (auto simp: unfinished_def finishRecorded_def finish_def logEvent_def getTransaction_def
      updateTransaction_def split: option.splits if_splits)

lemma finish_other_inv:
  "unfinished t w \<or> finishRecorded t w \<Longrightarrow>
   unfinished t (finish u w) \<or> finishRecorded t (finish u w)"
  by (auto simp: unfinished_def finishRecorded_def finish_def logEvent_def getTransaction_def
      updateTransaction_def nth_list_update split: option.splits if_splits)

lemma finishSpan_inv:
  "unfinished t w \<or> finishRecorded t w \<Longrightarrow>
   unfinished t (finishSpan u i w) \<or> finishRecorded t (finishSpan u i w)"
  by (auto simp: unfinished_def finishRecorded_def finishSpan_def logEvent_def getTransaction_def
      updateTransaction_def nth_list_update split: option.splits if_splits)

lemma run_task_inv:
  "unfinished t w \<or> finishRecorded t w \<Longrightarrow>
   unfinished t (run_task k w) \<or> finishRecorded t (run_task k w)"
  by (cases k) (simp_all add: finish_other_inv finishSpan_inv)

lemma fold_run_task_inv:
  "unfinished t w \<or> finishRecorded t w \<Longrightarrow>
   unfinished t (fold run_task ks w) \<or> finishRecorded t (fold run_task ks w)"
  by (induction ks arbitrary: w) (simp_all add: run_task_inv)

lemma queued_immediates:
  "sentryTransaction res = Some t \<Longrightarrow>
   immediates (finishSentryProcessing_queued res w) = immediates w @ [TaskTransactionFinish t]"
  by (simp add: finishSentryProcessing_queued_def setImmediate_def setHttpStatus_def logEvent_def
      updateTransaction_def)

lemma queued_events:
  "sentryTransaction res = Some t \<Longrightarrow>
   events (finishSentryProcessing_queued res w) =
     events w @ [EvSetHttpStatus t (statusCode res), EvSetImmediate (TaskTransactionFinish t)]"
  by (simp add: finishSentryProcessing_queued_def setImmediate_def setHttpStatus_def logEvent_def
      updateTransaction_def)

lemma queued_unfinished:
  "sentryTransaction res = Some t \<Longrightarrow> unfinished t w \<Longrightarrow>
   unfinished t (finishSentryProcessing_queued res w)"
  by (auto simp: finishSentryProcessing_queued_def setImmediate_def setHttpStatus_def logEvent_def
      updateTransaction_def unfinished_def getTransaction_def split: option.splits if_splits)

lemma queued_inv:
  "sentryTransaction res = Some t \<Longrightarrow> unfinished t w \<or> finishRecorded t w \<Longrightarrow>
   unfinished t (finishSentryProcessing_queued res w) \<or>
   finishRecorded t (finishSentryProcessing_queued res w)"
  by (auto simp: finishSentryProcessing_queued_def setImmediate_def setHttpStatus_def logEvent_def
      updateTransaction_def unfinished_def finishRecorded_def getTransaction_def
      split: option.splits if_splits)

lemma immediates_reset_inv:
  "unfinished t (w\<lparr>immediates := ks\<rparr>) = unfinished t w"
  "finishRecorded t (w\<lparr>immediates := ks\<rparr>) = finishRecorded t w"
  by (auto simp: unfinished_def finishRecorded_def getTransaction_def split: option.splits)

lemma transactionFinished_records:
  assumes "sentryTransaction res = Some t" "unfinished t w \<or> finishRecorded t w"
  shows "finishRecorded t (transactionFinished res w)"
proof -
  let ?q = "finishSentryProcessing_queued res w"
  have inv: "unfinished t (?q\<lparr>immediates := []\<rparr>) \<or> finishRecorded t (?q\<lparr>immediates := []\<rparr>)"
    using queued_inv [OF assms] by (simp add: immediates_reset_inv)
  have "transactionFinished res w =
          finish t (fold run_task (immediates w) (?q\<lparr>immediates := []\<rparr>))"
    by (simp add: transactionFinished_def run_immediates_def assms(1)
        queued_immediates [OF assms(1)])
  then show ?thesis
    using finish_records [OF fold_run_task_inv [OF inv]] by simp
qed

lemma finishSentryProcessing_returns: "fst (finishSentryProcessing env res w) = Inr ()"
  by (auto simp: finishSentryProcessing_def flush_def Let_def split: flush_outcome.splits)

lemma finishSentryProcessing_world:
  "snd (finishSentryProcessing env res w) =
     (transactionFinished res w)
       \<lparr>events := events (transactionFinished res w) @ flushTrace env (transactionFinished res w)\<rparr>"
  by (auto simp: finishSentryProcessing_def flush_def debugLog_def logEvent_def Let_def
        flushAttempts_def isFlush_def flushTrace_def split: flush_outcome.splits)

lemma filter_isFlush_flushTrace [simp]: "filter isFlush (flushTrace env w) = [EvFlush 2000]"
  by (simp add: flushTrace_def isFlush_def)

lemma isFinishOf_flushTrace [simp]: "filter (isFinishOf t) (flushTrace env w) = []"
  by (simp add: flushTrace_def isFinishOf_def)

lemma flushAttempts_updateTransaction [simp]:
  "flushAttempts (updateTransaction t f w) = flushAttempts w"
  by (simp add: flushAttempts_def updateTransaction_def)

lemma flushAttempts_finish [simp]: "flushAttempts (finish t w) = flushAttempts w"
  by (simp add: flushAttempts_def finish_def logEvent_def updateTransaction_def isFlush_def
      split: option.splits)

lemma flushAttempts_finishSpan [simp]: "flushAttempts (finishSpan t i w) = flushAttempts w"
  by (simp add: flushAttempts_def finishSpan_def logEvent_def updateTransaction_def isFlush_def
      split: option.splits)

lemma flushAttempts_run_task [simp]: "flushAttempts (run_task k w) = flushAttempts w"
  by (cases k) simp_all

lemma flushAttempts_fold_run_task [simp]:
  "flushAttempts (fold run_task ks w) = flushAttempts w"
  by (induction ks arbitrary: w) simp_all

lemma flushAttempts_queued [simp]:
  "flushAttempts (finishSentryProcessing_queued res w) = flushAttempts w"
  by (simp add: flushAttempts_def finishSentryProcessing_queued_def setImmediate_def
      setHttpStatus_def logEvent_def updateTransaction_def isFlush_def split: option.splits)

lemma flushAttempts_transactionFinished [simp]:
  "flushAttempts (transactionFinished res w) = flushAttempts w"
proof (cases "sentryTransaction res")
  case None
  then show ?thesis by (simp add: transactionFinished_def)
next
  case (Some t)
  have "flushAttempts (run_immediates (finishSentryProcessing_queued res w)) =
        flushAttempts ((finishSentryProcessing_queued res w)\<lparr>immediates := []\<rparr>)"
    by (simp add: run_immediates_def)
  also have "\<dots> = flushAttempts (finishSentryProcessing_queued res w)"
    by (simp add: flushAttempts_def)
  finally show ?thesis using Some by (simp add: transactionFinished_def)
qed

lemma flushAttempts_finishSentryProcessing:
  "flushAttempts (snd (finishSentryProcessing env res w)) = Suc (flushAttempts w)"
proof -
  have "flushAttempts (snd (finishSentryProcessing env res w)) =
        length (filter isFlush (events (transactionFinished res w))) + 1"
    by (simp add: finishSentryProcessing_world flushAttempts_def)
  also have "\<dots> = Suc (flushAttempts (transactionFinished res w))"
    by (simp add: flushAttempts_def)
  finally show ?thesis by simp
qed

lemma finishCount_finish:
  "finishCount n t w \<Longrightarrow> finishCount n t (finish u w)"
  by (auto simp: finishCount_def finishEvents_def isFinishOf_def finish_def logEvent_def
      getTransaction_def updateTransaction_def nth_list_update split: option.splits if_splits)

lemma finishCount_finishSpan:
  "finishCount n t w \<Longrightarrow> finishCount n t (finishSpan u i w)"
  by (auto simp: finishCount_def finishEvents_def isFinishOf_def finishSpan_def logEvent_def
      getTransaction_def updateTransaction_def nth_list_update split: option.splits if_splits)

lemma finishCount_run_task: "finishCount n t w \<Longrightarrow> finishCount n t (run_task k w)"
  by (cases k) (simp_all add: finishCount_finish finishCount_finishSpan)

lemma finishCount_fold: "finishCount n t w \<Longrightarrow> finishCount n t (fold run_task ks w)"
  by (induction ks arbitrary: w) (simp_all add: finishCount_run_task)

lemma finishCount_queued:
  "finishCount n t w \<Longrightarrow> finishCount n t (finishSentryProcessing_queued res w)"
  by (auto simp: finishCount_def finishEvents_def isFinishOf_def finishSentryProcessing_queued_def
      setImmediate_def setHttpStatus_def logEvent_def
      getTransaction_def updateTransaction_def nth_list_update split: option.splits if_splits)

lemma finishCount_reset:
  "finishCount n t (w\<lparr>immediates := ks\<rparr>) = finishCount n t w"
  by (simp add: finishCount_def finishEvents_def getTransaction_def)

lemma finishCount_transactionFinished:
  "finishCount n t w \<Longrightarrow> finishCount n t (transactionFinished res w)"
  by (cases "sentryTransaction res")
     (simp_all add: transactionFinished_def run_immediates_def finishCount_fold
        finishCount_queued finishCount_reset)

lemma finishCount_more_events:
  "filter (isFinishOf t) es = [] \<Longrightarrow>
   finishCount n t (w\<lparr>events := events w @ es\<rparr>) = finishCount n t w"
  by (simp add: finishCount_def finishEvents_def getTransaction_def)

lemma finishCount_finishSentryProcessing:
  "finishCount n t w \<Longrightarrow> finishCount n t (snd (finishSentryProcessing env res w))"
  by (simp add: finishSentryProcessing_world finishCount_more_events
      finishCount_transactionFinished)

lemma finishRecorded_finishSentryProcessing:
  "finishRecorded t (transactionFinished res w) \<Longrightarrow>
   finishRecorded t (snd (finishSentryProcessing env res w))"
  by (auto simp: finishSentryProcessing_world finishRecorded_def getTransaction_def
      split: option.splits if_splits)

lemma finishRecorded_count:
  "finishRecorded t w \<Longrightarrow> finishCount n t w \<Longrightarrow> length (finishEvents t w) = Suc n"
  by (auto simp: finishRecorded_def finishCount_def split: option.splits if_splits)

lemma unfinished_count:
  "unfinished t w \<Longrightarrow> finishCount (length (finishEvents t w)) t w"
  by (auto simp: unfinished_def finishCount_def split: option.splits)

lemmas eval_defs =
  finishSentryProcessing_def transactionFinished_def finishSentryProcessing_queued_def
  run_immediates_def setImmediate_def setHttpStatus_def finish_def finishSpan_def
  updateTransaction_def getTransaction_def logEvent_def flush_def debugLog_def
  flushAttempts_def isFlush_def unfinished_def finishRecorded_def finishEvents_def
  isFinishOf_def flushTrace_def Let_def

lemmas example_defs =
  exampleEnv_def failingFlushEnv_def buildEnv_def emptyWorld_def plainResponse_def
  tracedWorld_def tracedResponse_def

section \<open>Finalization\<close>

text \<open>
  Claim C4, as the code has it. When the response carries no transaction, finalization
  records no status, queues and runs no finish, and leaves the heap and the queue of
  immediates as they are; it returns without an error. The flush is not skipped: the trace
  grows by exactly one flush attempt, with a timeout of 2000 ms, and its settlement.
\<close>

theorem finalization_without_transaction:
  assumes "sentryTransaction res = None"
  shows "fst (finishSentryProcessing env res w) = Inr () \<and>
         transactions (snd (finishSentryProcessing env res w)) = transactions w \<and>
         immediates (snd (finishSentryProcessing env res w)) = immediates w \<and>
         finishEvents t (snd (finishSentryProcessing env res w)) = finishEvents t w \<and>
         events (snd (finishSentryProcessing env res w)) = events w @ flushTrace env w \<and>
         filter isFlush (flushTrace env w) = [EvFlush 2000]"
  using assms
  by (simp add: finishSentryProcessing_returns finishSentryProcessing_world
      transactionFinished_def finishEvents_def)

theorem finalization_without_transaction_witness:
  "sentryTransaction plainResponse = None \<and>
   fst (finishSentryProcessing failingFlushEnv plainResponse emptyWorld) = Inr () \<and>
   transactions (snd (finishSentryProcessing failingFlushEnv plainResponse emptyWorld)) = [] \<and>
   events (snd (finishSentryProcessing failingFlushEnv plainResponse emptyWorld)) =
     [EvFlush 2000, EvFlushSettled (FlushRejected (JObject 7))]"
proof -
  have h: "sentryTransaction plainResponse = None"
    by (simp add: plainResponse_def)
  show ?thesis
    using finalization_without_transaction [OF h, of failingFlushEnv emptyWorld 0] h
    by (simp add: flushTrace_def failingFlushEnv_def exampleEnv_def emptyWorld_def)
qed

text \<open>
  Claim C4 as stated says that no flush happens. On a response without a transaction, in a
  process that has not flushed yet, finalization makes one flush attempt.
\<close>

theorem finalization_without_transaction_still_flushes:
  "sentryTransaction plainResponse = None \<and>
   flushAttempts emptyWorld = 0 \<and>
   flushAttempts (snd (finishSentryProcessing exampleEnv plainResponse emptyWorld)) = 1 \<and>
   EvFlush 2000 \<in> set (events (snd (finishSentryProcessing exampleEnv plainResponse emptyWorld)))"
  by (simp add: eval_defs example_defs)

text \<open>
  Claim C5. For a response whose transaction is open: after the synchronous part of
  finalization the transaction is still open and its finish is the last entry of the queue
  of immediates; the finish runs in the next turn, behind everything queued before it;
  when the function goes on, the finish is recorded; the flush events follow everything
  that turn has left in the trace, with exactly one attempt, whose timeout is 2000 ms; and
  whatever the outcome of the flush, the function returns normally and the flush changes
  nothing but the trace.
\<close>

theorem finish_deferred_then_flush_swallowed:
  assumes "sentryTransaction res = Some t" and "unfinished t w"
  shows "unfinished t (finishSentryProcessing_queued res w) \<and>
         immediates (finishSentryProcessing_queued res w) =
           immediates w @ [TaskTransactionFinish t] \<and>
         transactionFinished res w =
           finish t (fold run_task (immediates w)
                       ((finishSentryProcessing_queued res w)\<lparr>immediates := []\<rparr>)) \<and>
         finishRecorded t (transactionFinished res w) \<and>
         events (snd (finishSentryProcessing env res w)) =
           events (transactionFinished res w) @ flushTrace env (transactionFinished res w) \<and>
         filter isFlush (flushTrace env (transactionFinished res w)) = [EvFlush 2000] \<and>
         fst (finishSentryProcessing env res w) = Inr () \<and>
         transactions (snd (finishSentryProcessing env res w)) =
           transactions (transactionFinished res w)"
proof -
  have "transactionFinished res w =
          finish t (fold run_task (immediates w)
                      ((finishSentryProcessing_queued res w)\<lparr>immediates := []\<rparr>))"
    by (simp add: transactionFinished_def run_immediates_def assms(1)
        queued_immediates [OF assms(1)])
  moreover have "finishRecorded t (transactionFinished res w)"
    using transactionFinished_records [OF assms(1)] assms(2) by blast
  ultimately show ?thesis
    using queued_unfinished [OF assms] queued_immediates [OF assms(1)]
    by (simp add: finishSentryProcessing_returns finishSentryProcessing_world)
qed

theorem finish_deferred_then_flush_swallowed_witness:
  "sentryTransaction tracedResponse = Some 0 \<and> unfinished 0 tracedWorld \<and>
   unfinished 0 (finishSentryProcessing_queued tracedResponse tracedWorld) \<and>
   immediates (finishSentryProcessing_queued tracedResponse tracedWorld) =
     [TaskSpanFinish 0 0, TaskTransactionFinish 0] \<and>
   finishRecorded 0 (transactionFinished tracedResponse tracedWorld) \<and>
   fst (finishSentryProcessing failingFlushEnv tracedResponse tracedWorld) = Inr () \<and>
   events (snd (finishSentryProcessing failingFlushEnv tracedResponse tracedWorld)) =
     [EvStartTransaction 0, EvSetHttpStatus 0 200, EvSetImmediate (TaskTransactionFinish 0),
      EvSpanFinish 0 0, EvFinish 0 3, EvFlush 2000, EvFlushSettled (FlushRejected (JObject 7))]"
proof -
  have h1: "sentryTransaction tracedResponse = Some 0"
    by (simp add: tracedResponse_def plainResponse_def)
  have h2: "unfinished 0 tracedWorld"
    by (simp add: unfinished_def getTransaction_def tracedWorld_def)
  have ev: "events (snd (finishSentryProcessing failingFlushEnv tracedResponse tracedWorld)) =
     [EvStartTransaction 0, EvSetHttpStatus 0 200, EvSetImmediate (TaskTransactionFinish 0),
      EvSpanFinish 0 0, EvFinish 0 3, EvFlush 2000, EvFlushSettled (FlushRejected (JObject 7))]"
    by (simp add: eval_defs example_defs)
  have im: "immediates tracedWorld = [TaskSpanFinish 0 0]"
    by (simp add: tracedWorld_def)
  note th = finish_deferred_then_flush_swallowed [OF h1 h2, of failingFlushEnv]
  have c1: "unfinished 0 (finishSentryProcessing_queued tracedResponse tracedWorld)"
    using th by blast
  have c2: "immediates (finishSentryProcessing_queued tracedResponse tracedWorld) =
     [TaskSpanFinish 0 0, TaskTransactionFinish 0]"
    using th [THEN conjunct2, THEN conjunct1] im by simp
  have c3: "finishRecorded 0 (transactionFinished tracedResponse tracedWorld)"
    using th by blast
  have c4: "fst (finishSentryProcessing failingFlushEnv tracedResponse tracedWorld) = Inr ()"
    using th by blast
  show ?thesis
    using h1 h2 c1 c2 c3 c4 ev by blast
qed

lemma endTimestampOf_finish:
  "endTimestampOf w t = Some ts \<Longrightarrow> endTimestampOf (finish u w) t = Some ts"
  by (auto simp: endTimestampOf_def finish_def logEvent_def getTransaction_def
      updateTransaction_def nth_list_update split: option.splits if_splits)

lemma endTimestampOf_finishSpan:
  "endTimestampOf (finishSpan u i w) t = endTimestampOf w t"
  by (auto simp: endTimestampOf_def finishSpan_def logEvent_def getTransaction_def
      updateTransaction_def nth_list_update split: option.splits if_splits)

lemma endTimestampOf_run_task:
  "endTimestampOf w t = Some ts \<Longrightarrow> endTimestampOf (run_task k w) t = Some ts"
  by (cases k) (simp_all add: endTimestampOf_finish endTimestampOf_finishSpan)

lemma endTimestampOf_fold:
  "endTimestampOf w t = Some ts \<Longrightarrow> endTimestampOf (fold run_task ks w) t = Some ts"
  by (induction ks arbitrary: w) (simp_all add: endTimestampOf_run_task)

lemma endTimestampOf_queued:
  "endTimestampOf (finishSentryProcessing_queued res w) t = endTimestampOf w t"
  by (auto simp: endTimestampOf_def finishSentryProcessing_queued_def setImmediate_def
      setHttpStatus_def logEvent_def getTransaction_def updateTransaction_def nth_list_update
      split: option.splits if_splits)

lemma endTimestampOf_reset:
  "endTimestampOf (w\<lparr>immediates := ks\<rparr>) t = endTimestampOf w t"
  "endTimestampOf (w\<lparr>events := es\<rparr>) t = endTimestampOf w t"
  by (simp_all add: endTimestampOf_def getTransaction_def)

lemma endTimestampOf_transactionFinished:
  "endTimestampOf w t = Some ts \<Longrightarrow> endTimestampOf (transactionFinished res w) t = Some ts"
  by (cases "sentryTransaction res")
     (simp_all add: transactionFinished_def run_immediates_def endTimestampOf_fold
        endTimestampOf_queued endTimestampOf_reset)

lemma endTimestampOf_finishSentryProcessing:
  "endTimestampOf w t = Some ts \<Longrightarrow>
   endTimestampOf (snd (finishSentryProcessing env res w)) t = Some ts"
  by (simp add: finishSentryProcessing_world endTimestampOf_reset
      endTimestampOf_transactionFinished)

lemma finishRecorded_endTimestampOf:
  "finishRecorded t w \<Longrightarrow> \<exists>ts. endTimestampOf w t = Some ts"
  by (auto simp: finishRecorded_def endTimestampOf_def split: option.splits)

lemma finishRecorded_not_unfinished:
  "finishRecorded t w \<Longrightarrow> \<not> unfinished t w"
  by (auto simp: finishRecorded_def unfinished_def split: option.splits)

text \<open>
  Claim C6, as the code has it. Finalization run twice for a response whose transaction is
  open (the second time with whatever status the response then has): the first run records
  the finish; the second run leaves the finish time as it is and adds no finish to the
  trace, so there is exactly one finish. The flush is attempted once in each run, twice in
  all.
\<close>

theorem finalization_twice:
  assumes "sentryTransaction res = Some t" and "sentryTransaction res' = Some t"
    and "unfinished t w"
  shows "finishRecorded t (snd (finishSentryProcessing env res w)) \<and>
         endTimestampOf (snd (finishSentryProcessing env res'
                                (snd (finishSentryProcessing env res w)))) t =
           endTimestampOf (snd (finishSentryProcessing env res w)) t \<and>
         length (finishEvents t (snd (finishSentryProcessing env res w))) =
           Suc (length (finishEvents t w)) \<and>
         length (finishEvents t (snd (finishSentryProcessing env res'
                                       (snd (finishSentryProcessing env res w))))) =
           Suc (length (finishEvents t w)) \<and>
         flushAttempts (snd (finishSentryProcessing env res w)) = Suc (flushAttempts w) \<and>
         flushAttempts (snd (finishSentryProcessing env res'
                               (snd (finishSentryProcessing env res w)))) =
           Suc (Suc (flushAttempts w))"
proof -
  let ?w1 = "snd (finishSentryProcessing env res w)"
  let ?w2 = "snd (finishSentryProcessing env res' ?w1)"
  let ?n = "length (finishEvents t w)"
  have rec1: "finishRecorded t ?w1"
    using transactionFinished_records [OF assms(1)] assms(3)
    by (simp add: finishRecorded_finishSentryProcessing)
  have rec2: "finishRecorded t ?w2"
    using transactionFinished_records [OF assms(2), of ?w1] rec1
    by (simp add: finishRecorded_finishSentryProcessing)
  have cnt1: "finishCount ?n t ?w1"
    using unfinished_count [OF assms(3)] by (rule finishCount_finishSentryProcessing)
  then have cnt2: "finishCount ?n t ?w2"
    by (rule finishCount_finishSentryProcessing)
  obtain ts where ts: "endTimestampOf ?w1 t = Some ts"
    using finishRecorded_endTimestampOf [OF rec1] by blast
  have same: "endTimestampOf ?w2 t = endTimestampOf ?w1 t"
    using endTimestampOf_finishSentryProcessing [OF ts] ts by simp
  show ?thesis
    using rec1 same finishRecorded_count [OF rec1 cnt1] finishRecorded_count [OF rec2 cnt2]
    by (simp add: flushAttempts_finishSentryProcessing)
qed

lemmas wrapper_defs =
  withSentry_def handlerInput_def startRequest_def handleError_def wrapEndMethod_def
  transactionName_def stripUrlQueryAndFragment_def replace_def toUpperCase_def
  toUpperChar_def startTransaction_def setSpan_def addEventProcessor_def
  captureException_def stringHeader_def

lemmas handler_defs =
  usersRequest_def throwingHandler_def objectThrowingHandler_def endingHandler_def

theorem finalization_twice_witness:
  "sentryTransaction tracedResponse = Some 0 \<and> unfinished 0 tracedWorld \<and>
   endTimestampOf (snd (finishSentryProcessing exampleEnv tracedResponse tracedWorld)) 0 = Some 3 \<and>
   endTimestampOf (snd (finishSentryProcessing exampleEnv tracedResponse
       (snd (finishSentryProcessing exampleEnv tracedResponse tracedWorld)))) 0 = Some 3 \<and>
   length (finishEvents 0 (snd (finishSentryProcessing exampleEnv tracedResponse
       (snd (finishSentryProcessing exampleEnv tracedResponse tracedWorld))))) = 1 \<and>
   flushAttempts (snd (finishSentryProcessing exampleEnv tracedResponse
       (snd (finishSentryProcessing exampleEnv tracedResponse tracedWorld)))) = 2"
proof -
  have h1: "sentryTransaction tracedResponse = Some 0"
    by (simp add: tracedResponse_def plainResponse_def)
  have h2: "unfinished 0 tracedWorld"
    by (simp add: unfinished_def getTransaction_def tracedWorld_def)
  have e1: "endTimestampOf (snd (finishSentryProcessing exampleEnv tracedResponse tracedWorld)) 0
              = Some 3"
    by (simp add: eval_defs example_defs endTimestampOf_def)
  have n0: "length (finishEvents 0 tracedWorld) = 0" "flushAttempts tracedWorld = 0"
    by (simp_all add: finishEvents_def isFinishOf_def flushAttempts_def isFlush_def tracedWorld_def)
  note th = finalization_twice [OF h1 h1 h2, of exampleEnv]
  show ?thesis
    using th h1 h2 e1 n0 by simp
qed

text \<open>
  Claim C6 as stated says that there is exactly one flush attempt. A throwing handler makes
  \<^verbatim>\<open>withSentry\<close> finalize in its \<^verbatim>\<open>catch\<close> block (one flush); when the wrapped
  \<^verbatim>\<open>res.end\<close> is called afterwards, there are two, with still one finish.
\<close>

theorem error_path_then_close_flushes_twice:
  "flushAttempts (snd (snd erroredRequest)) = 1 \<and>
   flushAttempts (snd (call_end exampleEnv (res_end (fst (snd erroredRequest)))
                         (fst (snd erroredRequest)) [] (snd (snd erroredRequest)))) = 2 \<and>
   length (finishEvents 0 (snd (call_end exampleEnv (res_end (fst (snd erroredRequest)))
                                  (fst (snd erroredRequest)) [] (snd (snd erroredRequest))))) = 1"
  by (simp add: erroredRequest_def eval_defs example_defs wrapper_defs handler_defs)

lemma res_end_startRequest: "res_end (fst (startRequest env req res w)) = res_end res"
  by (simp add: startRequest_def Let_def split: option.splits prod.splits)

lemma res_end_handlerInput:
  "res_end (fst (handlerInput env req res w)) = wrapEndMethod (res_end res)"
  by (simp add: handlerInput_def res_end_startRequest)

lemma handlerInput_res_end_idem:
  "handlerInput env req res w = (res1, w1) \<Longrightarrow>
   res1\<lparr>res_end := wrapEndMethod (res_end res)\<rparr> = res1"
  using res_end_handlerInput [of env req res w] by simp

lemma withSentry_handler_sees_wrapped_end:
  "withSentry env h req res w =
   withSentry env (\<lambda>rq rs. h rq (rs\<lparr>res_end := wrapEndMethod (res_end res)\<rparr>)) req res w"
proof (cases "handlerInput env req res w")
  case (Pair res1 w1)
  then show ?thesis
    using handlerInput_res_end_idem [OF Pair] by (simp add: withSentry_def)
qed

lemma call_end_wrapped:
  "call_end env (wrapEndMethod origEnd) r args v =
   call_end env origEnd r args (snd (finishSentryProcessing env r v))"
proof (cases "finishSentryProcessing env r v")
  case (Pair a v')
  then have "a = Inr ()"
    using finishSentryProcessing_returns [of env r v] by simp
  with Pair show ?thesis by (simp add: wrapEndMethod_def)
qed

section \<open>The request handler wrapper\<close>

text \<open>
  Claim C1. The response that the handler receives has its \<^verbatim>\<open>end\<close> replaced by the
  wrapped version of the method it had. Calling a wrapped method runs the method it wraps
  in the state that finalization has left: the trace of a wrapped native \<^verbatim>\<open>end\<close> is the
  trace after the turn that finishes the transaction, then the flush attempt and its
  settlement, and only then the native \<^verbatim>\<open>end\<close>. Finalization makes one flush attempt
  and, when the response carries an open transaction, records its finish.
\<close>

theorem wrapped_end_finalizes_before_close:
  "res_end (fst (handlerInput env req res w)) = wrapEndMethod (res_end res) \<and>
   withSentry env h req res w =
     withSentry env (\<lambda>rq rs. h rq (rs\<lparr>res_end := wrapEndMethod (res_end res)\<rparr>)) req res w \<and>
   call_end env (wrapEndMethod origEnd) r args v =
     call_end env origEnd r args (snd (finishSentryProcessing env r v)) \<and>
   events (snd (call_end env (wrapEndMethod NativeEnd) r args v)) =
     events (transactionFinished r v) @ flushTrace env (transactionFinished r v)
       @ [EvOrigEnd args] \<and>
   flushAttempts (snd (finishSentryProcessing env r v)) = Suc (flushAttempts v) \<and>
   (sentryTransaction r = Some t \<and> unfinished t v \<longrightarrow>
      finishRecorded t (snd (finishSentryProcessing env r v)))"
proof -
  have "events (snd (call_end env (wrapEndMethod NativeEnd) r args v)) =
     events (transactionFinished r v) @ flushTrace env (transactionFinished r v)
       @ [EvOrigEnd args]"
    by (simp add: call_end_wrapped logEvent_def finishSentryProcessing_world)
  moreover have "sentryTransaction r = Some t \<and> unfinished t v \<longrightarrow>
      finishRecorded t (snd (finishSentryProcessing env r v))"
    using transactionFinished_records [of r t v]
    by (simp add: finishRecorded_finishSentryProcessing)
  ultimately show ?thesis
    using withSentry_handler_sees_wrapped_end [of env h req res w]
    by (simp add: res_end_handlerInput call_end_wrapped flushAttempts_finishSentryProcessing)
qed

theorem wrapped_end_finalizes_before_close_witness:
  "sentryTransaction tracedResponse = Some 0 \<and> unfinished 0 tracedWorld \<and>
   finishRecorded 0 (snd (finishSentryProcessing exampleEnv tracedResponse tracedWorld)) \<and>
   res_end (fst (handlerInput exampleEnv usersRequest plainResponse emptyWorld)) =
     WrappedEnd NativeEnd \<and>
   events (snd (call_end exampleEnv (WrappedEnd NativeEnd) tracedResponse [JStr ''done'']
                  tracedWorld)) =
     [EvStartTransaction 0, EvSetHttpStatus 0 200, EvSetImmediate (TaskTransactionFinish 0),
      EvSpanFinish 0 0, EvFinish 0 3, EvFlush 2000, EvFlushSettled (FlushResolved True),
      EvOrigEnd [JStr ''done'']] \<and>
   events (snd (snd (withSentry exampleEnv (endingHandler exampleEnv) usersRequest
                       plainResponse emptyWorld))) =
     [EvStartTransaction 0, EvSetHttpStatus 0 201, EvSetImmediate (TaskTransactionFinish 0),
      EvFinish 0 1, EvFlush 2000, EvFlushSettled (FlushResolved True), EvOrigEnd []]"
proof -
  have h1: "sentryTransaction tracedResponse = Some 0"
    by (simp add: tracedResponse_def plainResponse_def)
  have h2: "unfinished 0 tracedWorld"
    by (simp add: unfinished_def getTransaction_def tracedWorld_def)
  note th = wrapped_end_finalizes_before_close
    [of exampleEnv usersRequest plainResponse emptyWorld "endingHandler exampleEnv" NativeEnd
        tracedResponse "[JStr ''done'']" tracedWorld 0]
  have c1: "finishRecorded 0 (snd (finishSentryProcessing exampleEnv tracedResponse tracedWorld))"
    using th h1 h2 by blast
  have c2: "res_end (fst (handlerInput exampleEnv usersRequest plainResponse emptyWorld)) =
     WrappedEnd NativeEnd"
    using th [THEN conjunct1] by (simp add: wrapEndMethod_def plainResponse_def)
  have c3: "events (snd (call_end exampleEnv (WrappedEnd NativeEnd) tracedResponse
                           [JStr ''done''] tracedWorld)) =
     [EvStartTransaction 0, EvSetHttpStatus 0 200, EvSetImmediate (TaskTransactionFinish 0),
      EvSpanFinish 0 0, EvFinish 0 3, EvFlush 2000, EvFlushSettled (FlushResolved True),
      EvOrigEnd [JStr ''done'']]"
    by (simp add: eval_defs example_defs)
  have c4: "events (snd (snd (withSentry exampleEnv (endingHandler exampleEnv) usersRequest
                       plainResponse emptyWorld))) =
     [EvStartTransaction 0, EvSetHttpStatus 0 201, EvSetImmediate (TaskTransactionFinish 0),
      EvFinish 0 1, EvFlush 2000, EvFlushSettled (FlushResolved True), EvOrigEnd []]"
    by (simp add: eval_defs example_defs wrapper_defs handler_defs)
  show ?thesis
    using h1 h2 c1 c2 c3 c4 by blast
qed

lemma httpStatusOf_finish: "httpStatusOf (finish u w) t = httpStatusOf w t"
  by (auto simp: httpStatusOf_def finish_def logEvent_def getTransaction_def
      updateTransaction_def nth_list_update split: option.splits if_splits)

lemma httpStatusOf_finishSpan: "httpStatusOf (finishSpan u i w) t = httpStatusOf w t"
  by (auto simp: httpStatusOf_def finishSpan_def logEvent_def getTransaction_def
      updateTransaction_def nth_list_update split: option.splits if_splits)

lemma httpStatusOf_run_task: "httpStatusOf (run_task k w) t = httpStatusOf w t"
  by (cases k) (simp_all add: httpStatusOf_finish httpStatusOf_finishSpan)

lemma httpStatusOf_fold: "httpStatusOf (fold run_task ks w) t = httpStatusOf w t"
  by (induction ks arbitrary: w) (simp_all add: httpStatusOf_run_task)

lemma httpStatusOf_queued:
  "sentryTransaction res = Some t \<Longrightarrow> unfinished t w \<Longrightarrow>
   httpStatusOf (finishSentryProcessing_queued res w) t = Some (statusCode res)"
  by (auto simp: httpStatusOf_def unfinished_def finishSentryProcessing_queued_def
      setImmediate_def setHttpStatus_def logEvent_def getTransaction_def updateTransaction_def
      split: option.splits if_splits)

lemma httpStatusOf_reset:
  "httpStatusOf (w\<lparr>immediates := ks\<rparr>) t = httpStatusOf w t"
  "httpStatusOf (w\<lparr>events := es\<rparr>) t = httpStatusOf w t"
  by (simp_all add: httpStatusOf_def getTransaction_def)

lemma httpStatusOf_finishSentryProcessing:
  "sentryTransaction res = Some t \<Longrightarrow> unfinished t w \<Longrightarrow>
   httpStatusOf (snd (finishSentryProcessing env res w)) t = Some (statusCode res)"
  by (simp add: finishSentryProcessing_world transactionFinished_def run_immediates_def
      httpStatusOf_reset httpStatusOf_fold httpStatusOf_queued)

lemma unfinished_capture:
  "unfinished t (captureException e (addEventProcessor p w)) = unfinished t w"
  by (simp add: unfinished_def captureException_def addEventProcessor_def logEvent_def
      getTransaction_def)

lemma flushAttempts_capture:
  "flushAttempts (captureException e (addEventProcessor p w)) = flushAttempts w"
  by (simp add: flushAttempts_def captureException_def addEventProcessor_def logEvent_def
      isFlush_def)

lemma objectify_cases: "objectify e = (if isObject e then e else JWrapper e)"
  by (cases e) (simp_all add: isObject_def)

lemma handleError_result:
  "handleError env hasScope e res w =
     (Inl (objectify e),
      res\<lparr>statusCode := 500, statusMessage := ''Internal Server Error''\<rparr>,
      snd (finishSentryProcessing env
             (res\<lparr>statusCode := 500, statusMessage := ''Internal Server Error''\<rparr>)
             (if hasScope
              then captureException (objectify e) (addEventProcessor AddExceptionMechanism w)
              else w)))"
proof -
  let ?r = "res\<lparr>statusCode := 500, statusMessage := ''Internal Server Error''\<rparr>"
  let ?w = "if hasScope
            then captureException (objectify e) (addEventProcessor AddExceptionMechanism w)
            else w"
  obtain a v where p: "finishSentryProcessing env ?r ?w = (a, v)"
    by (cases "finishSentryProcessing env ?r ?w")
  then have "a = Inr ()"
    using finishSentryProcessing_returns [of env ?r ?w] by simp
  with p show ?thesis
    by (simp add: handleError_def Let_def)
qed

text \<open>
  Claim C2, as the code has it. When the handler throws \<open>e\<close>: the response gets status
  500, finalization runs on that response (after the error has been captured, if there is
  a scope) and makes one flush attempt, an open transaction of the response is finished
  with status 500, and only the state after finalization comes with the re-thrown value.
  That value is \<^verbatim>\<open>objectify(e)\<close>: \<open>e\<close> itself when it is an object, and a wrapper object
  around \<open>e\<close> when it is a primitive.
\<close>

theorem error_is_finalized_then_rethrown_objectified:
  assumes "handlerInput env req res w = (res1, w1)"
    and "origHandler req res1 w1 = (Inl e, res2, w2)"
  shows "withSentry env origHandler req res w =
           (Inl (objectify e),
            res2\<lparr>statusCode := 500, statusMessage := ''Internal Server Error''\<rparr>,
            snd (finishSentryProcessing env
                   (res2\<lparr>statusCode := 500, statusMessage := ''Internal Server Error''\<rparr>)
                   (if currentScope w \<noteq> None
                    then captureException (objectify e)
                           (addEventProcessor AddExceptionMechanism w2)
                    else w2))) \<and>
         flushAttempts (snd (snd (withSentry env origHandler req res w))) =
           Suc (flushAttempts w2) \<and>
         (sentryTransaction res2 = Some t \<and> unfinished t w2 \<longrightarrow>
            httpStatusOf (snd (snd (withSentry env origHandler req res w))) t = Some 500 \<and>
            finishRecorded t (snd (snd (withSentry env origHandler req res w)))) \<and>
         objectify e = (if isObject e then e else JWrapper e)"
proof -
  let ?r = "res2\<lparr>statusCode := 500, statusMessage := ''Internal Server Error''\<rparr>"
  let ?w = "if currentScope w \<noteq> None
            then captureException (objectify e) (addEventProcessor AddExceptionMechanism w2)
            else w2"
  have run: "withSentry env origHandler req res w =
               (Inl (objectify e), ?r, snd (finishSentryProcessing env ?r ?w))"
    using assms by (simp add: withSentry_def handleError_result)
  have fl: "flushAttempts ?w = flushAttempts w2"
    by (simp add: flushAttempts_capture)
  have st: "httpStatusOf (snd (finishSentryProcessing env ?r ?w)) t = Some 500 \<and>
            finishRecorded t (snd (finishSentryProcessing env ?r ?w))"
    if "sentryTransaction res2 = Some t" "unfinished t w2"
  proof -
    have tr: "sentryTransaction ?r = Some t" using that(1) by simp
    have un: "unfinished t ?w" using that(2) by (simp add: unfinished_capture)
    show ?thesis
      using httpStatusOf_finishSentryProcessing [OF tr un, of env]
        transactionFinished_records [OF tr, of ?w] un
      by (simp add: finishRecorded_finishSentryProcessing)
  qed
  show ?thesis
    unfolding run using st fl
    by (simp add: flushAttempts_finishSentryProcessing objectify_cases)
qed

theorem error_is_finalized_then_rethrown_objectified_witness:
  "handlerInput exampleEnv usersRequest plainResponse emptyWorld =
     (plainResponse\<lparr>sentryTransaction := Some 0, res_end := WrappedEnd NativeEnd\<rparr>,
      snd (handlerInput exampleEnv usersRequest plainResponse emptyWorld)) \<and>
   fst (withSentry exampleEnv objectThrowingHandler usersRequest plainResponse emptyWorld) =
     Inl (JObject 3) \<and>
   statusCode (fst (snd (withSentry exampleEnv objectThrowingHandler usersRequest plainResponse
                           emptyWorld))) = 500 \<and>
   httpStatusOf (snd (snd (withSentry exampleEnv objectThrowingHandler usersRequest
                             plainResponse emptyWorld))) 0 = Some 500 \<and>
   finishRecorded 0 (snd (snd (withSentry exampleEnv objectThrowingHandler usersRequest
                                 plainResponse emptyWorld))) \<and>
   flushAttempts (snd (snd (withSentry exampleEnv objectThrowingHandler usersRequest
                              plainResponse emptyWorld))) = 1"
proof -
  let ?res1 = "plainResponse\<lparr>sentryTransaction := Some 0, res_end := WrappedEnd NativeEnd\<rparr>"
  let ?w1 = "snd (handlerInput exampleEnv usersRequest plainResponse emptyWorld)"
  have h1: "handlerInput exampleEnv usersRequest plainResponse emptyWorld = (?res1, ?w1)"
    by (simp add: eval_defs example_defs wrapper_defs handler_defs)
  have h2: "objectThrowingHandler usersRequest ?res1 ?w1 = (Inl (JObject 3), ?res1, ?w1)"
    by (simp add: objectThrowingHandler_def)
  have tr: "sentryTransaction ?res1 = Some 0"
    by simp
  have un: "unfinished 0 ?w1" "flushAttempts ?w1 = 0"
    by (simp_all add: eval_defs example_defs wrapper_defs handler_defs)
  note th = error_is_finalized_then_rethrown_objectified
    [where origHandler = objectThrowingHandler and t = 0, OF h1 h2]
  let ?run = "withSentry exampleEnv objectThrowingHandler usersRequest plainResponse emptyWorld"
  have c1: "fst ?run = Inl (JObject 3)" "statusCode (fst (snd ?run)) = 500"
    using th [THEN conjunct1] by simp_all
  have c2: "flushAttempts (snd (snd ?run)) = 1"
    using th [THEN conjunct2, THEN conjunct1] un(2) by simp
  have c3: "httpStatusOf (snd (snd ?run)) 0 = Some 500 \<and> finishRecorded 0 (snd (snd ?run))"
    using th [THEN conjunct2, THEN conjunct2, THEN conjunct1] tr un(1) by blast
  show ?thesis
    using h1 c1 c2 c3 by blast
qed

text \<open>
  Claim C2 as stated says that the re-thrown value is the thrown one. A handler that throws
  the string \<^verbatim>\<open>'boom'\<close> makes \<^verbatim>\<open>withSentry\<close> throw the wrapper object of that string.
\<close>

theorem thrown_primitive_is_rethrown_wrapped:
  "throwingHandler usersRequest
     (fst (handlerInput exampleEnv usersRequest plainResponse emptyWorld))
     (snd (handlerInput exampleEnv usersRequest plainResponse emptyWorld)) =
     (Inl (JStr ''boom''),
      fst (handlerInput exampleEnv usersRequest plainResponse emptyWorld),
      snd (handlerInput exampleEnv usersRequest plainResponse emptyWorld)) \<and>
   fst (withSentry exampleEnv throwingHandler usersRequest plainResponse emptyWorld) =
     Inl (JWrapper (JStr ''boom'')) \<and>
   fst (withSentry exampleEnv throwingHandler usersRequest plainResponse emptyWorld) \<noteq>
     Inl (JStr ''boom'')"
  by (simp add: eval_defs example_defs wrapper_defs handler_defs)

text \<open>The search finds an occurrence of the pattern, and a replacement without a dollar
  is put in as it is.\<close>

lemma splitAtFirst_sound:
  "splitAtFirst pat s = Some (preceding, following) \<Longrightarrow> s = preceding @ pat @ following"
proof (induction s arbitrary: preceding)
  case Nil
  then show ?case by (simp split: if_splits)
next
  case (Cons c cs)
  show ?case
  proof (cases "take (length pat) (c # cs) = pat")
    case True
    then have "preceding = []" "following = drop (length pat) (c # cs)"
      using Cons.prems by simp_all
    then show ?thesis
      using True append_take_drop_id [of "length pat" "c # cs"] by simp
  next
    case False
    then obtain b where "splitAtFirst pat cs = Some (b, following)" "preceding = c # b"
      using Cons.prems by (auto split: option.splits)
    then show ?thesis
      using Cons.IH by simp
  qed
qed

lemma replace_without_dollar:
  "CHR ''$'' \<notin> set replacement \<Longrightarrow>
   getSubstitution matched preceding following replacement = replacement"
  by (induction matched preceding following replacement rule: getSubstitution.induct) auto

lemma replace_first_occurrence:
  assumes "splitAtFirst pat str = Some (preceding, following)"
    and "CHR ''$'' \<notin> set replacement"
  shows "replace str pat replacement = preceding @ replacement @ following"
  using assms by (simp add: replace_def replace_without_dollar)


lemma occursAt_Suc: "occursAt pat (c # cs) (Suc n) = occursAt pat cs n"
  by (simp add: occursAt_def)

lemma splitAtFirst_first:
  "\<forall>n<length pre. \<not> occursAt pat (pre @ pat @ post) n \<Longrightarrow>
   splitAtFirst pat (pre @ pat @ post) = Some (pre, post)"
proof (induction pre)
  case Nil
  show ?case
  proof (cases "pat @ post")
    case Nil
    then show ?thesis by simp
  next
    case (Cons c cs)
    have "take (length pat) (pat @ post) = pat" "drop (length pat) (pat @ post) = post"
      by simp_all
    then have "take (length pat) (c # cs) = pat" "drop (length pat) (c # cs) = post"
      unfolding Cons by simp_all
    then show ?thesis
      using Cons by simp
  qed
next
  case (Cons a pre)
  have "\<not> occursAt pat (a # pre @ pat @ post) 0"
    using Cons.prems by auto
  then have np: "take (length pat) (a # pre @ pat @ post) \<noteq> pat"
    by (simp add: occursAt_def)
  have "\<forall>n<length pre. \<not> occursAt pat (pre @ pat @ post) n"
  proof (intro allI impI)
    fix n assume "n < length pre"
    then have "\<not> occursAt pat ((a # pre) @ pat @ post) (Suc n)"
      using Cons.prems by auto
    then show "\<not> occursAt pat (pre @ pat @ post) n"
      by (simp add: occursAt_Suc)
  qed
  then have "splitAtFirst pat (pre @ pat @ post) = Some (pre, post)"
    by (rule Cons.IH)
  then show ?case
    using np by simp
qed

lemma splitAtFirst_absent:
  "\<forall>n\<le>length s. \<not> occursAt pat s n \<Longrightarrow> splitAtFirst pat s = None"
proof (induction s)
  case Nil
  then show ?case by (auto simp: occursAt_def)
next
  case (Cons c cs)
  have "\<not> occursAt pat (c # cs) 0"
    using Cons.prems by auto
  then have np: "take (length pat) (c # cs) \<noteq> pat"
    by (simp add: occursAt_def)
  have "\<forall>n\<le>length cs. \<not> occursAt pat cs n"
  proof (intro allI impI)
    fix n assume "n \<le> length cs"
    then have "\<not> occursAt pat (c # cs) (Suc n)"
      using Cons.prems by auto
    then show "\<not> occursAt pat cs n"
      by (simp add: occursAt_Suc)
  qed
  then have "splitAtFirst pat cs = None"
    by (rule Cons.IH)
  then show ?case
    using np by simp
qed

lemma replace_absent: "\<not> occurs pat s \<Longrightarrow> replace s pat r = s"
proof -
  assume "\<not> occurs pat s"
  then have "\<forall>n\<le>length s. \<not> occursAt pat s n"
    by (auto simp: occurs_def list_ex_iff)
  then show ?thesis
    by (simp add: replace_def splitAtFirst_absent)
qed

lemma replace_first:
  assumes "firstOccurrence pat (pre @ pat @ post) (length pre)"
    and "CHR ''$'' \<notin> set r"
  shows "replace (pre @ pat @ post) pat r = pre @ r @ post"
proof -
  have "\<forall>n<length pre. \<not> occursAt pat (pre @ pat @ post) n"
    using assms(1) by (auto simp: firstOccurrence_def list_ex_iff)
  then show ?thesis
    using assms(2) by (simp add: replace_def splitAtFirst_first replace_without_dollar)
qed

lemma fold_replace_absent:
  "noneOccurs s entries \<Longrightarrow>
   fold (\<lambda>(key, value) p. replace p (templateString value) (''['' @ key @ '']'')) entries s = s"
  by (induction entries) (auto simp: noneOccurs_def replace_absent)

lemma strip_path:
  assumes "CHR ''?'' \<notin> set path" and "CHR ''#'' \<notin> set path"
    and "rest = [] \<or> hd rest = CHR ''?'' \<or> hd rest = CHR ''#''"
  shows "stripUrlQueryAndFragment (path @ rest) = path"
proof -
  have "takeWhile (\<lambda>c. c \<noteq> CHR ''?'' \<and> c \<noteq> CHR ''#'') rest = []"
    using assms(3) by (cases rest) auto
  moreover have "\<forall>c\<in>set path. c \<noteq> CHR ''?'' \<and> c \<noteq> CHR ''#''"
    using assms(1,2) by auto
  ultimately show ?thesis
    by (simp add: stripUrlQueryAndFragment_def takeWhile_append2)
qed

lemma transactionName_route:
  assumes "url req = Some (pre @ value @ post @ rest)"
    and "CHR ''?'' \<notin> set (pre @ value @ post)" and "CHR ''#'' \<notin> set (pre @ value @ post)"
    and "rest = [] \<or> hd rest = CHR ''?'' \<or> hd rest = CHR ''#''"
    and "query req = Some (earlier @ [(key, Single value)] @ later)"
    and "noneOccurs (pre @ value @ post) earlier"
    and "firstOccurrence value (pre @ value @ post) (length pre)"
    and "CHR ''$'' \<notin> set key"
    and "noneOccurs (pre @ ''['' @ key @ '']'' @ post) later"
    and "req_method req = Some m \<and> m \<noteq> [] \<or>
         (req_method req = None \<or> req_method req = Some []) \<and> m = ''GET''"
  shows "transactionName req = toUpperCase m @ '' '' @ pre @ ''['' @ key @ '']'' @ post"
proof -
  have s: "stripUrlQueryAndFragment (pre @ value @ post @ rest) = pre @ value @ post"
    using strip_path [OF assms(2,3,4)] by simp
  have r: "replace (pre @ value @ post) value (''['' @ key @ '']'') =
             pre @ (''['' @ key @ '']'') @ post"
    using assms(8) by (intro replace_first [OF assms(7)]) simp
  have f: "fold (\<lambda>(key, value) p. replace p (templateString value) (''['' @ key @ '']''))
             (earlier @ [(key, Single value)] @ later) (pre @ value @ post) =
           pre @ ''['' @ key @ '']'' @ post"
    using fold_replace_absent [OF assms(6)] fold_replace_absent [OF assms(9)] r by simp
  have m: "(case req_method req of None \<Rightarrow> ''GET'' | Some m \<Rightarrow> if m = [] then ''GET'' else m) = m"
    using assms(10) by auto
  show ?thesis
    using assms(1,5) s f m by (simp add: transactionName_def Let_def)
qed

lemma toUpperCase_get: "toUpperCase ''GET'' = ''GET''" "toUpperCase ''get'' = ''GET''"
  by code_simp+

lemma startRequest_tracing:
  assumes "hasTracingEnabled env" and "currentScope w \<noteq> None"
  shows "sentryTransaction (fst (startRequest env req res w)) = Some (length (transactions w)) \<and>
         nameOf (snd (startRequest env req res w)) (length (transactions w)) =
           Some (transactionName req)"
  using assms
  by (auto simp: startRequest_def startTransaction_def setSpan_def addEventProcessor_def
      debugLog_def logEvent_def nameOf_def getTransaction_def Let_def
      split: option.splits prod.splits)

text \<open>
  Claim C8. Let tracing be enabled and a scope be at hand. Let the URL be a path, followed
  by nothing or by a query string or a fragment; let the query object hold a parameter whose
  value occurs in the path, first at the place given, besides entries whose values occur
  neither in the path before nor in the path after the replacement; and let the method be
  given (in ASCII) or be left out, which counts as GET. Then \<^verbatim>\<open>withSentry\<close> calls the
  handler with a response that carries a transaction whose name is the upper-cased method,
  a space, and the path with that value replaced by the parameter's name in brackets; and
  what \<^verbatim>\<open>withSentry\<close> returns is what the handler makes of that state. For
  \<^verbatim>\<open>/users/42?x=1\<close> with \<^verbatim>\<open>id = 42\<close> the name is \<^verbatim>\<open>GET /users/[id]\<close>.
\<close>

theorem route_transaction_name:
  assumes "hasTracingEnabled env" and "currentScope w \<noteq> None"
    and "url req = Some (pre @ value @ post @ rest)"
    and "CHR ''?'' \<notin> set (pre @ value @ post)" and "CHR ''#'' \<notin> set (pre @ value @ post)"
    and "rest = [] \<or> hd rest = CHR ''?'' \<or> hd rest = CHR ''#''"
    and "query req = Some (earlier @ [(key, Single value)] @ later)"
    and "noneOccurs (pre @ value @ post) earlier"
    and "firstOccurrence value (pre @ value @ post) (length pre)"
    and "CHR ''$'' \<notin> set key"
    and "noneOccurs (pre @ ''['' @ key @ '']'' @ post) later"
    and "req_method req = Some m \<and> m \<noteq> [] \<or>
         (req_method req = None \<or> req_method req = Some []) \<and> m = ''GET''"
    and "isAscii m"
  shows "\<exists>t res1 w1.
           handlerInput env req res w = (res1, w1) \<and>
           sentryTransaction res1 = Some t \<and>
           nameOf w1 t = Some (toUpperCase m @ '' '' @ pre @ ''['' @ key @ '']'' @ post) \<and>
           withSentry env origHandler req res w =
             (case origHandler req res1 w1 of
                (Inr handlerResult, res2, w2) \<Rightarrow>
                  (Inr handlerResult, res2,
                   if nodeEnvDevelopment env \<and> \<not> ignoreApiResolutionError env
                   then logEvent EvConsoleWarn w2 else w2)
              | (Inl e, res2, w2) \<Rightarrow> handleError env True e res2 w2)"
proof -
  obtain res1 w1 where hi: "handlerInput env req res w = (res1, w1)"
    by (cases "handlerInput env req res w")
  have n: "transactionName req = toUpperCase m @ '' '' @ pre @ ''['' @ key @ '']'' @ post"
    using assms(3-12) by (rule transactionName_route)
  have "sentryTransaction res1 = Some (length (transactions w)) \<and>
        nameOf w1 (length (transactions w)) = Some (transactionName req)"
    using startRequest_tracing [OF assms(1,2), of req "res\<lparr>res_end := wrapEndMethod (res_end res)\<rparr>"]
      hi by (simp add: handlerInput_def)
  moreover have "withSentry env origHandler req res w =
             (case origHandler req res1 w1 of
                (Inr handlerResult, res2, w2) \<Rightarrow>
                  (Inr handlerResult, res2,
                   if nodeEnvDevelopment env \<and> \<not> ignoreApiResolutionError env
                   then logEvent EvConsoleWarn w2 else w2)
              | (Inl e, res2, w2) \<Rightarrow> handleError env True e res2 w2)"
    unfolding withSentry_def hi using assms(2)
    by (auto split: prod.splits sum.splits)
  ultimately show ?thesis
    using hi n by auto
qed

theorem route_transaction_name_witness:
  "hasTracingEnabled exampleEnv \<and> currentScope emptyWorld \<noteq> None \<and>
   url usersRequest = Some (''/users/'' @ ''42'' @ '''' @ ''?x=1'') \<and>
   query usersRequest = Some ([(''x'', Single ''1'')] @ [(''id'', Single ''42'')] @ []) \<and>
   noneOccurs ''/users/42'' [(''x'', Single ''1'')] \<and>
   firstOccurrence ''42'' ''/users/42'' (length ''/users/'') \<and>
   req_method usersRequest = Some ''GET'' \<and> req_method lowerCaseRequest = Some ''get'' \<and>
   sentryTransaction (fst (handlerInput exampleEnv usersRequest plainResponse emptyWorld)) =
     Some 0 \<and>
   nameOf (snd (handlerInput exampleEnv usersRequest plainResponse emptyWorld)) 0 =
     Some ''GET /users/[id]'' \<and>
   nameOf (snd (handlerInput exampleEnv lowerCaseRequest plainResponse emptyWorld)) 0 =
     Some ''GET /users/[id]'' \<and>
   nameOf (snd (snd (withSentry exampleEnv objectThrowingHandler usersRequest plainResponse
                       emptyWorld))) 0 = Some ''GET /users/[id]''"
proof -
  have h: "hasTracingEnabled exampleEnv" "currentScope emptyWorld \<noteq> None"
    by (simp_all add: exampleEnv_def emptyWorld_def)
  have u: "url usersRequest = Some (''/users/'' @ ''42'' @ '''' @ ''?x=1'')"
    "url lowerCaseRequest = Some (''/users/'' @ ''42'' @ '''' @ ''?x=1'')"
    "query usersRequest = Some ([(''x'', Single ''1'')] @ [(''id'', Single ''42'')] @ [])"
    "query lowerCaseRequest = Some ([(''x'', Single ''1'')] @ [(''id'', Single ''42'')] @ [])"
    "req_method usersRequest = Some ''GET''" "req_method lowerCaseRequest = Some ''get''"
    by (simp_all add: usersRequest_def lowerCaseRequest_def)
  have p: "CHR ''?'' \<notin> set (''/users/'' @ ''42'' @ '''')"
    "CHR ''#'' \<notin> set (''/users/'' @ ''42'' @ '''')"
    "''?x=1'' = [] \<or> hd ''?x=1'' = CHR ''?'' \<or> hd ''?x=1'' = CHR ''#''"
    "CHR ''$'' \<notin> set ''id''"
    by simp_all
  have o: "noneOccurs (''/users/'' @ ''42'' @ '''') [(''x'', Single ''1'')]"
    "firstOccurrence ''42'' (''/users/'' @ ''42'' @ '''') (length ''/users/'')"
    "noneOccurs (''/users/'' @ ''['' @ ''id'' @ '']'' @ '''') []"
    "isAscii ''GET''" "isAscii ''get''"
    by code_simp+
  have o': "noneOccurs ''/users/42'' [(''x'', Single ''1'')]"
    "firstOccurrence ''42'' ''/users/42'' (length ''/users/'')"
    by code_simp+
  have m1: "req_method usersRequest = Some ''GET'' \<and> ''GET'' \<noteq> [] \<or>
         (req_method usersRequest = None \<or> req_method usersRequest = Some []) \<and> ''GET'' = ''GET''"
    using u(5) by simp
  have m2: "req_method lowerCaseRequest = Some ''get'' \<and> ''get'' \<noteq> [] \<or>
         (req_method lowerCaseRequest = None \<or> req_method lowerCaseRequest = Some []) \<and>
         ''get'' = ''GET''"
    using u(6) by simp
  note th1 = route_transaction_name
    [where origHandler = objectThrowingHandler and res = plainResponse,
     OF h u(1) p(1,2,3) u(3) o(1,2) p(4) o(3) m1 o(4)]
  note th2 = route_transaction_name
    [where origHandler = objectThrowingHandler and res = plainResponse,
     OF h u(2) p(1,2,3) u(4) o(1,2) p(4) o(3) m2 o(5)]
  have z: "length (transactions emptyWorld) = 0"
    by (simp add: emptyWorld_def)
  have t1: "sentryTransaction (fst (handlerInput exampleEnv usersRequest plainResponse emptyWorld)) = Some 0"
    "sentryTransaction (fst (handlerInput exampleEnv lowerCaseRequest plainResponse emptyWorld)) = Some 0"
    using startRequest_tracing [OF h] z by (simp_all add: handlerInput_def)
  have n1: "nameOf (snd (handlerInput exampleEnv usersRequest plainResponse emptyWorld)) 0 =
     Some ''GET /users/[id]''"
    using th1 t1(1) by (auto simp: toUpperCase_get)
  have n2: "nameOf (snd (handlerInput exampleEnv lowerCaseRequest plainResponse emptyWorld)) 0 =
     Some ''GET /users/[id]''"
    using th2 t1(2) by (auto simp: toUpperCase_get)
  have n3: "nameOf (snd (snd (withSentry exampleEnv objectThrowingHandler usersRequest plainResponse
                       emptyWorld))) 0 = Some ''GET /users/[id]''"
    by (simp add: nameOf_def eval_defs example_defs wrapper_defs handler_defs)
  show ?thesis
    using h u o' t1 n1 n2 n3 by simp
qed

lemma hexDigit_hex: "hexDigit n \<in> set ''0123456789abcdef''"
  unfolding hexDigit_def by (rule nth_mem) simp

lemma spanId_hex: "set (spanId x) \<subseteq> set ''0123456789abcdef''"
  using hexDigit_hex by (auto simp: spanId_def simp del: set_simps)

lemma prototype_key_not_hex:
  "k \<in> set objectPrototypeKeys \<Longrightarrow> \<not> set k \<subseteq> set ''0123456789abcdef''"
  by (auto simp: objectPrototypeKeys_def)

lemma spanId_not_inherited: "spanId x \<notin> set objectPrototypeKeys"
  using prototype_key_not_hex [of "spanId x"] spanId_hex [of x] by blast

lemma spanIdOf_not_inherited: "spanIdOf w t \<notin> set objectPrototypeKeys"
proof (cases "getTransaction w t")
  case None
  then show ?thesis by (simp add: spanIdOf_def objectPrototypeKeys_def)
next
  case (Some x)
  then show ?thesis by (simp add: spanIdOf_def spanId_not_inherited)
qed

lemma stashLookup_update: "stashLookup (AList.update k m stash) k = Some m"
  by (simp add: stashLookup_def update_conv')

lemma stashLookup_delete:
  "k \<notin> set objectPrototypeKeys \<Longrightarrow> stashLookup (AList.delete k stash) k = None"
  by (simp add: stashLookup_def delete_conv')

lemma lookup_deleted:
  "getTransactionById (Some (spanIdOf v t)) (deleteTransaction (spanIdOf v t) w) = None"
  using spanIdOf_not_inherited [of v t]
  by (auto simp: getTransactionById_def deleteTransaction_def stashLookup_delete
      split: option.splits)

lemma registry_ok_lookup:
  assumes "registry_ok w" and "getTransactionById i w = Some (OwnTransaction t)"
  shows "unfinished t w \<and> registered t w"
proof -
  obtain stash where st: "sentryTransactions w = Some stash"
    using assms(2) by (auto simp: getTransactionById_def split: option.splits)
  let ?k = "case i of None \<Rightarrow> [] | Some j \<Rightarrow> j"
  have "stashLookup stash ?k = Some (OwnTransaction t)"
    using assms(2) st by (simp add: getTransactionById_def)
  then have own: "map_of stash ?k = Some (OwnTransaction t)"
    by (auto simp: stashLookup_def split: option.splits if_splits)
  then have mem: "(?k, OwnTransaction t) \<in> set stash"
    by (rule map_of_SomeD)
  have "case getTransaction w t of None \<Rightarrow> False
        | Some x \<Rightarrow> spanId x = ?k \<and> endTimestamp x = None"
    using assms(1) st mem by (auto simp: registry_ok_def list_all_iff)
  then show ?thesis
    using own st
    by (auto simp: unfinished_def registered_def getTransactionById_def stashLookup_def
        split: option.splits)
qed

lemma stashTransaction_registered:
  "getTransaction w t \<noteq> None \<Longrightarrow> registered t (stashTransaction t w)"
  by (auto simp: registered_def stashTransaction_def getTransactionById_def spanIdOf_def
      getTransaction_def stashLookup_update split: option.splits if_splits)

lemma stashTransaction_unfinished [simp]:
  "unfinished t (stashTransaction u w) = unfinished t w"
  by (simp add: unfinished_def stashTransaction_def getTransaction_def)

lemma startTransaction_new:
  "startTransaction env ctx w = (t, w1) \<Longrightarrow>
   t = length (transactions w) \<and> unfinished t w1 \<and> getTransaction w1 t \<noteq> None \<and>
   length (transactions w1) = Suc (length (transactions w))"
  by (auto simp: startTransaction_def logEvent_def unfinished_def getTransaction_def Let_def)

lemma startChild_keeps:
  assumes "startChild t spOp w = (sp, w1)"
  shows "identityOf w1 u = identityOf w u"
    and "unfinished u w1 = unfinished u w"
    and "registered u w1 = registered u w"
    and "sentryTransactions w1 = sentryTransactions w"
    and "length (transactions w1) = length (transactions w)"
    and "getTransaction w t \<noteq> None \<Longrightarrow> spanOpen t sp w1"
    and "events w1 = events w"
  using assms
  by (auto simp: startChild_def identityOf_def unfinished_def registered_def spanOpen_def
      getTransactionById_def updateTransaction_def getTransaction_def nth_list_update
      nth_append spanId_def split: option.splits if_splits)

lemma finishSpan_keeps:
  shows "identityOf (finishSpan t i w) u = identityOf w u"
    and "unfinished u (finishSpan t i w) = unfinished u w"
    and "registered u (finishSpan t i w) = registered u w"
    and "sentryTransactions (finishSpan t i w) = sentryTransactions w"
    and "spanIdOf (finishSpan t i w) u = spanIdOf w u"
  by (auto simp: finishSpan_def identityOf_def unfinished_def registered_def logEvent_def
      getTransactionById_def updateTransaction_def getTransaction_def nth_list_update
      spanId_def spanIdOf_def split: option.splits if_splits)

lemma frame_keeps:
  assumes "transactions v = transactions w" and "sentryTransactions v = sentryTransactions w"
  shows "identityOf v u = identityOf w u"
    and "unfinished u v = unfinished u w"
    and "registered u v = registered u w"
    and "spanOpen u i v = spanOpen u i w"
    and "spanIdOf v u = spanIdOf w u"
  using assms
  by (simp_all add: identityOf_def unfinished_def registered_def spanOpen_def spanIdOf_def
      getTransactionById_def getTransaction_def)

lemma registered_spanIdOf:
  "registered t w \<Longrightarrow> getTransactionById (Some (spanIdOf w t)) w = Some (OwnTransaction t)"
  by (auto simp: registered_def spanIdOf_def split: option.splits)

lemma sentryTransactionId_update:
  "sentryTransactionId (AList.update reservedKey (JStr s) ps) = Some s"
  by (simp add: sentryTransactionId_def update_conv')

lemma setName_debugLog_keeps:
  shows "identityOf (setName t n src (debugLog env msg w)) u = identityOf w u"
    and "unfinished u (setName t n src (debugLog env msg w)) = unfinished u w"
    and "registered u (setName t n src (debugLog env msg w)) = registered u w"
    and "length (transactions (setName t n src (debugLog env msg w))) = length (transactions w)"
    and "getTransaction w t \<noteq> None \<Longrightarrow>
         getTransaction (setName t n src (debugLog env msg w)) t \<noteq> None"
    and "sentryTransactions (setName t n src (debugLog env msg w)) = sentryTransactions w"
  by (auto simp: setName_def debugLog_def logEvent_def identityOf_def unfinished_def
      registered_def getTransactionById_def updateTransaction_def getTransaction_def
      nth_list_update spanId_def split: option.splits if_splits)

lemma finishSpan_valid:
  "getTransaction w t \<noteq> None \<Longrightarrow> getTransaction (finishSpan u i w) t \<noteq> None"
  by (auto simp: finishSpan_def logEvent_def updateTransaction_def
      getTransaction_def split: option.splits if_splits)

lemma finish_ends:
  "getTransaction w t \<noteq> None \<Longrightarrow> endTimestampOf (finish t w) t \<noteq> None"
  by (auto simp: finish_def endTimestampOf_def logEvent_def updateTransaction_def
      getTransaction_def split: option.splits if_splits)

lemma deleteTransaction_keeps:
  "endTimestampOf (deleteTransaction k w) t = endTimestampOf w t"
  "spanIdOf (deleteTransaction k w) t = spanIdOf w t"
  by (auto simp: deleteTransaction_def endTimestampOf_def spanIdOf_def getTransaction_def
      split: option.splits)




section \<open>The page wrappers\<close>


lemmas page_defs =
  wrappedGSSP_def withSentryGSSP_def withSentryGSP_def withSentry_app_def appWrapperSpan_def
  activeTransaction_def startOrGetPageRouteTransaction_def getTransactionById_def
  stashLookup_def objectPrototypeKeys_def deleteTransaction_def stashTransaction_def
  startChild_def setName_def spanIdOf_def spanId_def hexDigit_def
  endsWith_def reservedKey_def sentryTransactionId_def registered_def registry_ok_def
  startTransaction_def

lemmas page_example_defs =
  exampleGSSP_def exampleGSP_def exampleApp_def throwingApp_def postsContext_def
  mapContext_def afterGSSP_def appContext_def


text \<open>
  Claim C7, as the code has it. The wrapped \<^verbatim>\<open>getServerSideProps\<close> is the wrapped function
  itself (same result, same state) when tracing is disabled, in build mode, or when the
  resolved URL ends in \<^verbatim>\<open>.map\<close>. The wrapped \<^verbatim>\<open>getStaticProps\<close> is the wrapped function
  itself when tracing is disabled or in build mode; it looks at no path.
\<close>

theorem data_loading_wrappers_pass_through:
  "(\<not> hasTracingEnabled env \<or> isBuild env \<or> endsWith (resolvedUrl context) ''.map'' \<longrightarrow>
      wrappedGSSP env gSSP rt context w = gSSP context w) \<and>
   (\<not> hasTracingEnabled env \<or> isBuild env \<longrightarrow>
      withSentryGSP env gSP staticContext w = gSP staticContext w) \<and>
   withSentryGSSP env (Some gSSP) rt = Some (wrappedGSSP env gSSP rt)"
  by (auto simp: wrappedGSSP_def withSentryGSP_def withSentryGSSP_def)

theorem data_loading_wrappers_pass_through_witness:
  "isBuild buildEnv \<and> endsWith (resolvedUrl mapContext) ''.map'' \<and>
   wrappedGSSP buildEnv exampleGSSP ''/posts/[id]'' postsContext emptyWorld =
     (Inr (ResultProps [(''a'', JNum 1)]), emptyWorld) \<and>
   withSentryGSP buildEnv exampleGSP [] emptyWorld =
     (Inr \<lparr>props = [(''a'', JNum 1)]\<rparr>, emptyWorld) \<and>
   wrappedGSSP exampleEnv exampleGSSP ''/posts/[id]'' mapContext emptyWorld =
     (Inr (ResultProps [(''a'', JNum 1)]), emptyWorld)"
proof -
  have h: "isBuild buildEnv" "endsWith (resolvedUrl mapContext) ''.map''"
    by (simp_all add: buildEnv_def exampleEnv_def mapContext_def endsWith_def)
  have g: "exampleGSSP postsContext emptyWorld = (Inr (ResultProps [(''a'', JNum 1)]), emptyWorld)"
    "exampleGSSP mapContext emptyWorld = (Inr (ResultProps [(''a'', JNum 1)]), emptyWorld)"
    "exampleGSP [] emptyWorld = (Inr \<lparr>props = [(''a'', JNum 1)]\<rparr>, emptyWorld)"
    by (simp_all add: exampleGSSP_def exampleGSP_def)
  note b = data_loading_wrappers_pass_through
    [of buildEnv postsContext exampleGSSP "''/posts/[id]''" emptyWorld exampleGSP "[]"]
  note m = data_loading_wrappers_pass_through
    [of exampleEnv mapContext exampleGSSP "''/posts/[id]''" emptyWorld exampleGSP "[]"]
  show ?thesis
    using b m h g by simp
qed

text \<open>
  Claim C7 as stated lets a path that ends in \<^verbatim>\<open>.map\<close> switch off both wrappers. With
  tracing on, the wrapped \<^verbatim>\<open>getStaticProps\<close> starts a transaction and adds the reserved
  field although its context names such a path.
\<close>

theorem static_props_wrapper_ignores_map_path:
  "endsWith ''/_next/static/css/app.css.map'' ''.map'' \<and>
   exampleGSP [(''resolvedUrl'', JStr ''/_next/static/css/app.css.map'')] emptyWorld =
     (Inr \<lparr>props = [(''a'', JNum 1)]\<rparr>, emptyWorld) \<and>
   fst (withSentryGSP exampleEnv exampleGSP
          [(''resolvedUrl'', JStr ''/_next/static/css/app.css.map'')] emptyWorld) =
     Inr \<lparr>props = [(''a'', JNum 1), (''__sentry_transaction_id__'', JStr ''a'')]\<rparr> \<and>
   length (transactions (snd (withSentryGSP exampleEnv exampleGSP
          [(''resolvedUrl'', JStr ''/_next/static/css/app.css.map'')] emptyWorld))) = 1"
  by (simp add: eval_defs example_defs page_defs page_example_defs)


text \<open>
  When the wrapped function leaves the heap and the stash alone, the stash holds the
  wrapper's transaction under the identifier in the props at the time the wrapper returns.
\<close>

lemma wrappedGSSP_registers:
  assumes "hasTracingEnabled env" and "\<not> isBuild env"
    and "\<not> endsWith (resolvedUrl context) ''.map''"
    and "registry_ok w"
    and "\<And>c v. transactions (snd (gSSP c v)) = transactions v \<and>
                sentryTransactions (snd (gSSP c v)) = sentryTransactions v"
    and "wrappedGSSP env gSSP rt context w = (Inr (ResultProps p), w')"
  shows "\<exists>t. getTransactionById (sentryTransactionId p) w' = Some (OwnTransaction t) \<and>
             unfinished t w' \<and> sentryTransactionId p = Some (spanIdOf w' t)"
proof -
  obtain m w1 where a: "startOrGetPageRouteTransaction env rt None w = (m, w1)"
    by (cases "startOrGetPageRouteTransaction env rt None w")
  show ?thesis
  proof (cases m)
    case (InheritedMember k)
    then show ?thesis
      using assms(1-3,6) a by (simp add: wrappedGSSP_def)
  next
    case (OwnTransaction t)
    obtain sp w2 where b: "startChild t ''getServerSideProps'' w1 = (sp, w2)"
      by (cases "startChild t ''getServerSideProps'' w1")
    obtain r w3 where c: "gSSP context w2 = (r, w3)"
      by (cases "gSSP context w2")
    have w': "w' = finishSpan t sp w3"
      and p: "sentryTransactionId p = Some (spanIdOf w' t)"
      using assms(1-3,6) a b c OwnTransaction
      by (auto simp: wrappedGSSP_def Let_def sentryTransactionId_update
          split: sum.splits getServerSidePropsResult.splits)
    have fr: "transactions w3 = transactions w2" "sentryTransactions w3 = sentryTransactions w2"
      using assms(5) [of "context" w2] c by simp_all
    have s1: "unfinished t w1 \<and> registered t w1"
    proof (cases "getTransactionById None w")
      case None
      let ?ctx = "\<lparr>ctxName = rt, ctxOp = Some ''http.server'', ctxSource = Some ''route'',
                    ctxTraceparent = None, ctxBaggage = None\<rparr>"
      obtain u v where sv: "startTransaction env ?ctx w = (u, v)"
        by (cases "startTransaction env ?ctx w")
      then have "t = u" "w1 = stashTransaction u v"
        using a None OwnTransaction by (auto simp: startOrGetPageRouteTransaction_def)
      then show ?thesis
        using startTransaction_new [OF sv] stashTransaction_registered [of v u] by auto
    next
      case (Some m')
      then have "m' = OwnTransaction t" "w1 = stashTransaction t w"
        using a OwnTransaction by (auto simp: startOrGetPageRouteTransaction_def)
      moreover have "unfinished t w"
        using registry_ok_lookup [OF assms(4)] Some \<open>m' = OwnTransaction t\<close> by simp
      moreover have "getTransaction w t \<noteq> None"
        using \<open>unfinished t w\<close> by (auto simp: unfinished_def split: option.splits)
      ultimately show ?thesis
        using stashTransaction_registered [of w t] by auto
    qed
    then have "unfinished t w2 \<and> registered t w2"
      using startChild_keeps(2,3) [OF b] by simp
    then have "unfinished t w3 \<and> registered t w3"
      using frame_keeps(2,3) [OF fr] by simp
    then have s4: "unfinished t w' \<and> registered t w'"
      using w' by (simp add: finishSpan_keeps)
    then show ?thesis
      using p registered_spanIdOf [of t w'] by auto
  qed
qed

lemma withSentry_app_success:
  assumes "hasTracingEnabled env" and "\<not> isBuild env"
    and "appWrapperSpan env contextData w = (Inr (t, sp), w1)"
    and "component contextData w1 = (Inr jsx, w2)"
    and "getTransaction w2 t \<noteq> None"
  shows "fst (withSentry_app env component contextData w) = Inr jsx \<and>
         endTimestampOf (snd (withSentry_app env component contextData w)) t \<noteq> None \<and>
         getTransactionById
           (Some (spanIdOf (snd (withSentry_app env component contextData w)) t))
           (snd (withSentry_app env component contextData w)) = None"
proof -
  let ?w3 = "finish t (finishSpan t sp w2)"
  have run: "withSentry_app env component contextData w =
               (Inr jsx, deleteTransaction (spanIdOf ?w3 t) ?w3)"
    using assms(1-4) by (simp add: withSentry_app_def Let_def)
  have "endTimestampOf ?w3 t \<noteq> None"
    using finish_ends [OF finishSpan_valid [OF assms(5)]] .
  then show ?thesis
    unfolding run by (simp add: deleteTransaction_keeps lookup_deleted)
qed

text \<open>
  A lookup that finds an inherited member: in a process that has stashed something, the
  identifier \<^verbatim>\<open>constructor\<close> yields a member of \<^verbatim>\<open>Object.prototype\<close>; no transaction
  is started, \<^verbatim>\<open>setName\<close> raises a TypeError, and the component is not called.
\<close>

lemma withSentry_app_inherited_member:
  "getTransactionById (sentryTransactionId (pageProps constructorContext)) (snd afterGSSP) =
     Some (InheritedMember ''constructor'') \<and>
   withSentry_app exampleEnv exampleApp constructorContext (snd afterGSSP) =
     (Inl JTypeError, snd afterGSSP)"
  by (simp add: constructorContext_def eval_defs example_defs page_defs page_example_defs)

text \<open>
  Claim C9, evaluated. The wrapped \<^verbatim>\<open>getStaticProps\<close> has stashed its transaction and
  written the identifier into the props. When \<^verbatim>\<open>withSentry_app\<close> resumes it around a
  component that returns, the transaction is finished and a lookup by its identifier finds
  nothing. Around a component that throws, the request is over and nothing is queued, yet
  the transaction is still open and the stash still holds it: the finish and the removal
  stand after the call of the component and are skipped by the throw.
\<close>

theorem throwing_app_leaves_stash_entry:
  "fst afterGSP1 =
     Inr \<lparr>props = [(''a'', JNum 1), (''__sentry_transaction_id__'', JStr ''a'')]\<rparr> \<and>
   getTransactionById (Some ''a'') (snd afterGSP1) = Some (OwnTransaction 0) \<and>
   fst (withSentry_app exampleEnv exampleApp appContext (snd afterGSP1)) = Inr ''page'' \<and>
   endTimestampOf (snd (withSentry_app exampleEnv exampleApp appContext (snd afterGSP1))) 0 =
     Some 5 \<and>
   getTransactionById (Some ''a'')
     (snd (withSentry_app exampleEnv exampleApp appContext (snd afterGSP1))) = None \<and>
   fst (withSentry_app exampleEnv throwingApp appContext (snd afterGSP1)) = Inl (JObject 5) \<and>
   endTimestampOf (snd (withSentry_app exampleEnv throwingApp appContext (snd afterGSP1))) 0 =
     None \<and>
   getTransactionById (Some ''a'')
     (snd (withSentry_app exampleEnv throwingApp appContext (snd afterGSP1))) =
     Some (OwnTransaction 0) \<and>
   immediates (snd (withSentry_app exampleEnv throwingApp appContext (snd afterGSP1))) = []"
  by (simp add: afterGSP1_def endTimestampOf_def eval_defs example_defs page_defs
      page_example_defs)

lemma activeTransaction_state:
  assumes "registry_ok w" and "activeTransaction env contextData w = (OwnTransaction t, w1)"
  shows "unfinished t w1 \<and> registered t w1"
proof (cases "getTransactionById (sentryTransactionId (pageProps contextData)) w")
  case None
  let ?ctx = "\<lparr>ctxName = route contextData, ctxOp = None, ctxSource = Some ''route'',
                   ctxTraceparent = None, ctxBaggage = None\<rparr>"
  obtain u v where sv: "startTransaction env ?ctx w = (u, v)"
    by (cases "startTransaction env ?ctx w")
  then have "t = u" "w1 = stashTransaction u v"
    using assms(2) None by (auto simp: activeTransaction_def)
  then show ?thesis
    using startTransaction_new [OF sv] stashTransaction_registered [of v u] by auto
next
  case (Some m)
  then have "m = OwnTransaction t" "w1 = w"
    using assms(2) by (auto simp: activeTransaction_def)
  then show ?thesis
    using registry_ok_lookup [OF assms(1)] Some by simp
qed

lemma appWrapperSpan_state:
  assumes "registry_ok w" and "appWrapperSpan env contextData w = (Inr (t, sp), w1)"
  shows "unfinished t w1 \<and> registered t w1 \<and> spanOpen t sp w1"
proof -
  obtain m v where a: "activeTransaction env contextData w = (m, v)"
    by (cases "activeTransaction env contextData w")
  let ?v = "setName t (route contextData) ''route''
              (debugLog env ''Found an active transaction. Changing its name'' v)"
  have m: "m = OwnTransaction t" and sc: "startChild t ''_app wrapper'' ?v = (sp, w1)"
    using assms(2) a
    by (auto simp: appWrapperSpan_def Let_def split: prod.splits stash_member.splits)
  have s: "unfinished t v \<and> registered t v"
    using activeTransaction_state [OF assms(1)] a m by simp
  then have valid: "getTransaction v t \<noteq> None"
    by (auto simp: unfinished_def split: option.splits)
  have s2: "unfinished t ?v \<and> registered t ?v"
    using s by (simp add: setName_debugLog_keeps)
  have "getTransaction ?v t \<noteq> None"
    using setName_debugLog_keeps(5) [OF valid] .
  then show ?thesis
    using s2 startChild_keeps(2,3,6) [OF sc] by auto
qed

text \<open>
  Claim C10. With tracing on and a stash whose entries are in order, let
  \<^verbatim>\<open>withSentry_app\<close> reach the call of the component, and let the component throw \<open>e\<close>
  and leave the heap and the stash alone. Then \<^verbatim>\<open>withSentry_app\<close> throws \<open>e\<close> itself and
  does nothing after the component: the state is the one the component left, in which the
  transaction is open, the wrapper's child span is open, and the stash still holds the
  transaction under its identifier.
\<close>

theorem throwing_component_leaves_transaction_open:
  assumes "hasTracingEnabled env" and "\<not> isBuild env" and "registry_ok w"
    and "appWrapperSpan env contextData w = (Inr (t, sp), w1)"
    and "component contextData w1 = (Inl e, w2)"
    and "transactions w2 = transactions w1"
    and "sentryTransactions w2 = sentryTransactions w1"
  shows "withSentry_app env component contextData w = (Inl e, w2) \<and>
         unfinished t w2 \<and> spanOpen t sp w2 \<and> registered t w2 \<and>
         getTransactionById (Some (spanIdOf w2 t)) w2 = Some (OwnTransaction t)"
proof -
  have run: "withSentry_app env component contextData w = (Inl e, w2)"
    using assms(1,2,4,5) by (simp add: withSentry_app_def)
  have "unfinished t w1 \<and> registered t w1 \<and> spanOpen t sp w1"
    using appWrapperSpan_state [OF assms(3,4)] .
  then have "unfinished t w2 \<and> spanOpen t sp w2 \<and> registered t w2"
    using frame_keeps(2,3,4) [OF assms(6,7)] by simp
  then show ?thesis
    using run registered_spanIdOf [of t w2] by simp
qed

theorem throwing_component_leaves_transaction_open_witness:
  "hasTracingEnabled exampleEnv \<and> \<not> isBuild exampleEnv \<and> registry_ok (snd afterGSSP) \<and>
   fst (withSentry_app exampleEnv throwingApp appContext (snd afterGSSP)) = Inl (JObject 5) \<and>
   unfinished 0 (snd (withSentry_app exampleEnv throwingApp appContext (snd afterGSSP))) \<and>
   spanOpen 0 1 (snd (withSentry_app exampleEnv throwingApp appContext (snd afterGSSP))) \<and>
   getTransactionById (Some ''a'')
     (snd (withSentry_app exampleEnv throwingApp appContext (snd afterGSSP))) =
     Some (OwnTransaction 0)"
proof -
  let ?w = "snd afterGSSP"
  let ?w1 = "snd (appWrapperSpan exampleEnv appContext ?w)"
  have h: "hasTracingEnabled exampleEnv" "\<not> isBuild exampleEnv" "registry_ok ?w"
    by (simp_all add: eval_defs example_defs page_defs page_example_defs)
  have a: "appWrapperSpan exampleEnv appContext ?w = (Inr (0, 1), ?w1)"
    by (simp add: eval_defs example_defs page_defs page_example_defs)
  have b: "throwingApp appContext ?w1 = (Inl (JObject 5), ?w1)"
    by (simp add: throwingApp_def)
  note th = throwing_component_leaves_transaction_open
    [where component = throwingApp, OF h a b refl refl]
  have sid: "spanIdOf ?w1 0 = ''a''"
    by (simp add: eval_defs example_defs page_defs page_example_defs)
  have r: "withSentry_app exampleEnv throwingApp appContext ?w = (Inl (JObject 5), ?w1)"
    using th by blast
  have c: "unfinished 0 ?w1" "spanOpen 0 1 ?w1"
    "getTransactionById (Some (spanIdOf ?w1 0)) ?w1 = Some (OwnTransaction 0)"
    using th by blast+
  show ?thesis
    using h r c sid by simp
qed

end
